theory Spec2Isabelle
  imports Main "HOL-Library.AList"
begin

unbundle bit_operations_syntax

section \<open>The gold symbol table (gold/symtab.cc)\<close>

text \<open>
  A shallow embedding of \<^verbatim>\<open>Symbol_table\<close> and \<^verbatim>\<open>Symbol\<close> of gold/symtab.cc.
  Symbol objects live on the C++ heap and are shared by pointer between hash slots, the
  commons list, the forwarder map and the per-object symbol pointer arrays; the model
  keeps them in an arena (the field \<open>heap\<close>), a pointer being an index into it and the null
  pointer being \<open>None\<close>. The template parameters \<open>size\<close> and \<open>big_endian\<close> are
  ordinary arguments (named \<open>sz\<close> and \<open>big_endian\<close>; an ELF symbol \<open>sym\<close> is named
  \<open>esym\<close>, as HOL has constants of both names). The raw symbol bytes are taken as already decoded ELF symbols.
  A call of \<^verbatim>\<open>gold_exit\<close>, a failed \<^verbatim>\<open>assert\<close> and \<^verbatim>\<open>abort\<close> end the link: the
  operation returns \<open>Inl\<close> of the error.

  Covered are the class \<^verbatim>\<open>Symbol\<close> with its initializers, the hash table with
  \<^verbatim>\<open>lookup\<close>, \<^verbatim>\<open>make_forwarder\<close> and \<^verbatim>\<open>resolve_forwards\<close>, \<^verbatim>\<open>add_from_object\<close>,
  \<^verbatim>\<open>add_from_relobj\<close>, \<^verbatim>\<open>add_from_dynobj\<close>, \<^verbatim>\<open>define_special_symbol\<close> with the three
  \<^verbatim>\<open>define_\<close> operations, and \<^verbatim>\<open>sized_finalize\<close>. The warnings and the writer of the
  output symbols are left out. Objects, targets, output sections and segments are used
  by pointer in the C++ code and do not change while the symbol table works on them; the
  model holds them by value.
\<close>

subsection \<open>ELF constants (elfcpp)\<close>

text \<open>
  Modelled from the spec: the reserved section indexes \<open>SHN_UNDEF\<close>, \<open>SHN_LORESERVE\<close>,
  \<open>SHN_ABS\<close> and \<open>SHN_COMMON\<close>, the version indexes and masks, and the enumerations of
  binding, type and visibility of the headers of elfcpp, with their values of the ELF
  format (\<open>0xff00\<close>, \<open>0xfff1\<close>, \<open>0xfff2\<close>; \<open>0x8000\<close> and \<open>0x7fff\<close>).
\<close>

definition SHN_UNDEF :: nat where "SHN_UNDEF = 0"
definition SHN_LORESERVE :: nat where "SHN_LORESERVE = 65280"
definition SHN_ABS :: nat where "SHN_ABS = 65521"
definition SHN_COMMON :: nat where "SHN_COMMON = 65522"

definition VER_NDX_LOCAL :: nat where "VER_NDX_LOCAL = 0"
definition VER_NDX_GLOBAL :: nat where "VER_NDX_GLOBAL = 1"
definition VERSYM_HIDDEN :: nat where "VERSYM_HIDDEN = 32768"
definition VERSYM_VERSION :: nat where "VERSYM_VERSION = 32767"

datatype STB = STB_LOCAL | STB_GLOBAL | STB_WEAK

datatype STT = STT_NOTYPE | STT_OBJECT | STT_FUNC | STT_SECTION | STT_FILE | STT_COMMON | STT_TLS

datatype STV = STV_DEFAULT | STV_INTERNAL | STV_HIDDEN | STV_PROTECTED

text \<open>
  Modelled from the spec: a decoded symbol table entry, \<^verbatim>\<open>elfcpp::Sym<size, big_endian>\<close>,
  with a field for each of its accessors.
\<close>

record elf_sym =
  st_name :: nat
  st_value :: nat
  st_size :: nat
  st_bind :: STB
  st_type :: STT
  st_visibility :: STV
  st_nonvis :: nat
  st_shndx :: nat

text \<open>
  Modelled from the spec: \<^verbatim>\<open>Elf_sizes<size>::sym_size\<close>, the size in bytes of a symbol
  table entry of the ELF format.
\<close>

definition sym_size :: "nat \<Rightarrow> nat" where
  "sym_size sz = (if sz = 32 then 16 else 24)"

subsection \<open>Collaborators: targets, objects, output sections and segments\<close>

text \<open>
  Modelled from the spec: a target (target.h), as far as the symbol table asks it: its
  word size and endianness, whether it has a \<^verbatim>\<open>make_symbol\<close> factory, and whether that
  factory answers with a null pointer.
\<close>

record target =
  t_size :: nat
  t_big_endian :: bool
  t_has_make_symbol :: bool
  t_make_symbol_null :: bool

text \<open>
  Modelled from the spec: an input object (object.h), as far as the symbol table asks
  it: its name, whether it is dynamic, its target, the sections the link includes, and
  for a section the address of its output section with the offset in it (absent when the
  section was discarded). Output data and output segments (output.h) likewise.
\<close>

record object =
  obj_name :: string
  obj_is_dynamic :: bool
  obj_target :: target
  obj_included :: "nat list"
  obj_output_section :: "(nat \<times> (nat \<times> nat)) list"

definition is_section_included :: "object \<Rightarrow> nat \<Rightarrow> bool" where
  "is_section_included ob shndx = (shndx \<in> set (obj_included ob))"

definition output_section :: "object \<Rightarrow> nat \<Rightarrow> (nat \<times> nat) option" where
  "output_section ob shnum = map_of (obj_output_section ob) shnum"

record output_data =
  od_address :: nat
  od_data_size :: nat
  od_out_shndx :: nat

record output_segment =
  seg_vaddr :: nat
  seg_memsz :: nat
  seg_filesz :: nat

subsection \<open>Class Symbol\<close>

datatype segment_offset_base = SEGMENT_START | SEGMENT_END | SEGMENT_BSS

text \<open>The member \<^verbatim>\<open>source_\<close> together with the union \<^verbatim>\<open>u_\<close> it selects. (Members are named
  without the trailing underscore of the C++ names.)\<close>

datatype source =
    FROM_OBJECT object nat
  | IN_OUTPUT_DATA output_data bool
  | IN_OUTPUT_SEGMENT output_segment segment_offset_base
  | CONSTANT

record symbol =
  sym_name :: string
  sym_version :: "string option"
  got_offset :: nat
  sym_type :: STT
  binding :: STB
  visibility :: STV
  nonvis :: nat
  is_target_special :: bool
  is_def :: bool
  is_forwarder :: bool
  in_dyn :: bool
  has_got_offset :: bool
  has_warning :: bool
  source :: source
  sym_value :: nat
  symsize :: nat

text \<open>
  \<^verbatim>\<open>Symbol::init_fields\<close> followed by the four overloads of \<^verbatim>\<open>init_base\<close> and
  \<^verbatim>\<open>Sized_symbol::init\<close>: together they set every member, so each yields a whole record.
\<close>

definition init_fields ::
  "string \<Rightarrow> string option \<Rightarrow> STT \<Rightarrow> STB \<Rightarrow> STV \<Rightarrow> nat \<Rightarrow> source \<Rightarrow> nat \<Rightarrow> nat \<Rightarrow> symbol" where
  "init_fields name version type bind vis nv src val ssize =
     \<lparr> sym_name = name, sym_version = version, got_offset = 0, sym_type = type,
       binding = bind, visibility = vis, nonvis = nv,
       is_target_special = False, is_def = False, is_forwarder = False,
       in_dyn = False, has_got_offset = False, has_warning = False,
       source = src, sym_value = val, symsize = ssize \<rparr>"

definition init_from_object :: "string \<Rightarrow> string option \<Rightarrow> object \<Rightarrow> elf_sym \<Rightarrow> symbol" where
  "init_from_object name version ob esym =
     (init_fields name version (st_type esym) (st_bind esym) (st_visibility esym)
        (st_nonvis esym) (FROM_OBJECT ob (st_shndx esym)) (st_value esym) (st_size esym))
       \<lparr> in_dyn := obj_is_dynamic ob \<rparr>"

definition init_in_output_data ::
  "string \<Rightarrow> output_data \<Rightarrow> nat \<Rightarrow> nat \<Rightarrow> STT \<Rightarrow> STB \<Rightarrow> STV \<Rightarrow> nat \<Rightarrow> bool \<Rightarrow> symbol" where
  "init_in_output_data name od val ssize type bind vis nv offset_is_from_end =
     init_fields name None type bind vis nv
       (IN_OUTPUT_DATA od offset_is_from_end) val ssize"

definition init_in_output_segment ::
  "string \<Rightarrow> output_segment \<Rightarrow> nat \<Rightarrow> nat \<Rightarrow> STT \<Rightarrow> STB \<Rightarrow> STV \<Rightarrow> nat
     \<Rightarrow> segment_offset_base \<Rightarrow> symbol" where
  "init_in_output_segment name os val ssize type bind vis nv offset_base =
     init_fields name None type bind vis nv
       (IN_OUTPUT_SEGMENT os offset_base) val ssize"

definition init_constant ::
  "string \<Rightarrow> nat \<Rightarrow> nat \<Rightarrow> STT \<Rightarrow> STB \<Rightarrow> STV \<Rightarrow> nat \<Rightarrow> symbol" where
  "init_constant name val ssize type bind vis nv =
     init_fields name None type bind vis nv CONSTANT val ssize"

text \<open>
  Modelled from the spec: \<^verbatim>\<open>Symbol::is_undefined\<close> and \<^verbatim>\<open>Symbol::is_common\<close>
  (symtab.h). A record is undefined, or COMMON, when its source is FromObject with section
  index \<open>SHN_UNDEF\<close>, or \<open>SHN_COMMON\<close>.
\<close>

definition is_undefined :: "symbol \<Rightarrow> bool" where
  "is_undefined s = (case source s of FROM_OBJECT ob shnum \<Rightarrow> shnum = SHN_UNDEF | _ \<Rightarrow> False)"

definition is_common :: "symbol \<Rightarrow> bool" where
  "is_common s = (case source s of FROM_OBJECT ob shnum \<Rightarrow> shnum = SHN_COMMON | _ \<Rightarrow> False)"

subsection \<open>Errors\<close>

text \<open>
  One constructor for each diagnostic of the file that is followed by \<^verbatim>\<open>gold_exit\<close>,
  with the values it prints; the multiple definition diagnostic; a failed assertion,
  \<^verbatim>\<open>abort\<close>, and the use of a null symbol pointer.
\<close>

datatype error =
    Mixed_Size string
  | Bad_Global_Symbol_Name_Offset string nat nat
  | Bad_Symbol_Name_Offset string nat nat
  | Too_Few_Symbol_Versions string
  | Versym_Out_Of_Range string nat nat
  | Versym_Has_No_Name string nat nat
  | Unsupported_Symbol_Section string nat
  | Multiple_Definition string
  | Assert_Failed
  | Abort
  | Null_Pointer

subsection \<open>The name pool\<close>

type_synonym key = nat

text \<open>
  Modelled from the spec: \<^verbatim>\<open>Stringpool\<close> (stringpool.cc). The pool holds each string
  once; a string's key is its position, counted from 1 (key 0 is reserved), so equal
  strings have the same key and a key never changes. A canonical pointer is modelled by
  the string itself.
\<close>

fun stringpool_find :: "string list \<Rightarrow> string \<Rightarrow> key option" where
  "stringpool_find [] s = None"
| "stringpool_find (x # xs) s =
     (if x = s then Some 1 else map_option Suc (stringpool_find xs s))"

definition stringpool_add :: "string list \<Rightarrow> string \<Rightarrow> string list \<times> key" where
  "stringpool_add pool s =
     (case stringpool_find pool s of
        Some k \<Rightarrow> (pool, k)
      | None \<Rightarrow> (pool @ [s], Suc (length pool)))"

subsection \<open>The hash table\<close>

type_synonym addr = nat

type_synonym symbol_table_key = "key \<times> key"

text \<open>
  \<^verbatim>\<open>Symbol_table_type\<close>, an unordered map from keys to symbol pointers, as an
  association list with at most one entry for a key; the list order stands for the
  iteration order. \<open>table_insert\<close> is \<^verbatim>\<open>insert(make_pair(key, NULL))\<close>: the table
  and whether a new entry was made. \<open>table_value\<close> reads and \<open>table_set\<close> writes
  \<^verbatim>\<open>it->second\<close> for the entry of a key.
\<close>

type_synonym symbol_table_type = "(symbol_table_key \<times> addr option) list"

definition table_insert :: "symbol_table_type \<Rightarrow> symbol_table_key \<Rightarrow> symbol_table_type \<times> bool" where
  "table_insert t k =
     (case map_of t k of Some v \<Rightarrow> (t, False) | None \<Rightarrow> (t @ [(k, None)], True))"

definition table_value :: "symbol_table_type \<Rightarrow> symbol_table_key \<Rightarrow> addr option" where
  "table_value t k = (case map_of t k of Some v \<Rightarrow> v | None \<Rightarrow> None)"

definition table_set :: "symbol_table_type \<Rightarrow> symbol_table_key \<Rightarrow> addr option \<Rightarrow> symbol_table_type" where
  "table_set t k v = map (\<lambda>e. if fst e = k then (k, v) else e) t"

definition table_erase :: "symbol_table_type \<Rightarrow> symbol_table_key \<Rightarrow> symbol_table_type" where
  "table_erase t k = filter (\<lambda>e. fst e \<noteq> k) t"

subsection \<open>Class Symbol\_table\<close>

record symbol_table =
  elf_size :: nat
  saw_undefined :: nat
  offset :: nat
  output_count :: nat
  table :: symbol_table_type
  namepool :: "string list"
  forwarders :: "(addr \<times> addr) list"
  commons :: "addr list"
  heap :: "symbol list"

text \<open>The constructor \<^verbatim>\<open>Symbol_table::Symbol_table()\<close>, with an empty heap.\<close>

definition Symbol_table_new :: symbol_table where
  "Symbol_table_new =
     \<lparr> elf_size = 0, saw_undefined = 0, offset = 0, output_count = 0, table = [],
       namepool = [], forwarders = [], commons = [], heap = [] \<rparr>"

definition get_size :: "symbol_table \<Rightarrow> nat" where
  "get_size st = elf_size st"

text \<open>\<^verbatim>\<open>Symbol_table::make_forwarder\<close>.\<close>

definition make_forwarder :: "symbol_table \<Rightarrow> addr \<Rightarrow> addr \<Rightarrow> error + symbol_table" where
  "make_forwarder st from to =
     (if from = to then Inl Assert_Failed
      else if is_forwarder (heap st ! from) then Inl Assert_Failed
      else if is_forwarder (heap st ! to) then Inl Assert_Failed
      else Inr (st \<lparr> forwarders := AList.update from to (forwarders st),
                     heap := (heap st)[from := (heap st ! from) \<lparr> is_forwarder := True \<rparr>] \<rparr>))"

text \<open>\<^verbatim>\<open>Symbol_table::resolve_forwards\<close>.\<close>

definition resolve_forwards :: "symbol_table \<Rightarrow> addr \<Rightarrow> error + addr" where
  "resolve_forwards st from =
     (if is_forwarder (heap st ! from) then
        (case map_of (forwarders st) from of None \<Rightarrow> Inl Assert_Failed | Some p \<Rightarrow> Inr p)
      else Inl Assert_Failed)"

text \<open>\<^verbatim>\<open>Symbol_table::lookup\<close>.\<close>

definition lookup :: "symbol_table \<Rightarrow> string \<Rightarrow> string option \<Rightarrow> addr option" where
  "lookup st name version =
     (case stringpool_find (namepool st) name of
        None \<Rightarrow> None
      | Some name_key \<Rightarrow>
          (case version of
             None \<Rightarrow> table_value (table st) (name_key, 0)
           | Some v \<Rightarrow>
               (case stringpool_find (namepool st) v of
                  None \<Rightarrow> None
                | Some version_key \<Rightarrow> table_value (table st) (name_key, version_key))))"

subsection \<open>The resolver\<close>

text \<open>
  Modelled from the spec: \<^verbatim>\<open>Symbol_table::resolve(to, sym, object)\<close> (resolve.cc), the
  Resolver that merges an incoming ELF symbol of an object into an existing record. Each
  side is a definition, a COMMON or undefined, and strong or weak (binding WEAK); the
  action follows the table of existing against incoming: a strong definition meets a
  strong definition with a multiple definition error unless one side is dynamic (the
  relocatable side wins, the existing one when both are dynamic) and keeps every other
  incoming symbol out; a weak definition gives way to a strong definition only; a COMMON
  gives way to a strong definition, merges with a COMMON (the larger size and the larger
  alignment, which a COMMON holds as its value) and is kept otherwise; an undefined
  record gives way to everything but an undefined symbol, and a weak undefined record
  meeting an undefined symbol is promoted. The visibility becomes the more restrictive
  one (DEFAULT, PROTECTED, HIDDEN, INTERNAL in this order), and \<open>in_dyn\<close> is set once a
  dynamic object has come by.
\<close>

text \<open>
  Modelled from the spec: the three classes of a side (definition, COMMON, undefined) and
  the outcomes of the table (keep the existing record, overwrite it, merge two COMMONs,
  promote a weak undefined record, report a multiple definition), then the class of an
  incoming symbol and of an existing record, whether a record comes from a dynamic
  object, and the table itself: \<open>resolve_action\<close> takes class, weakness and
  dynamic origin of the existing side, then of the incoming side.
\<close>

datatype sym_class = CL_DEF | CL_COMMON | CL_UNDEF

datatype resolution = Keep | Overwrite | Merge_Common | Promote | Multi_Def

definition esym_class :: "elf_sym \<Rightarrow> sym_class" where
  "esym_class esym =
     (if st_shndx esym = SHN_UNDEF then CL_UNDEF
      else if st_shndx esym = SHN_COMMON then CL_COMMON else CL_DEF)"

definition symbol_class :: "symbol \<Rightarrow> sym_class" where
  "symbol_class s =
     (if is_undefined s then CL_UNDEF else if is_common s then CL_COMMON else CL_DEF)"

definition symbol_is_dynamic :: "symbol \<Rightarrow> bool" where
  "symbol_is_dynamic s =
     (case source s of FROM_OBJECT ob shnum \<Rightarrow> obj_is_dynamic ob | _ \<Rightarrow> False)"

definition resolve_action ::
  "sym_class \<Rightarrow> bool \<Rightarrow> bool \<Rightarrow> sym_class \<Rightarrow> bool \<Rightarrow> bool \<Rightarrow> resolution" where
  "resolve_action tc tweak tdyn fc fweak fdyn =
     (case tc of
        CL_DEF \<Rightarrow>
          (if fc = CL_DEF \<and> \<not> fweak then
             (if tweak then Overwrite
              else if tdyn \<and> \<not> fdyn then Overwrite
              else if tdyn \<or> fdyn then Keep
              else Multi_Def)
           else Keep)
      | CL_COMMON \<Rightarrow>
          (case fc of
             CL_DEF \<Rightarrow> (if fweak then Keep else Overwrite)
           | CL_COMMON \<Rightarrow> Merge_Common
           | CL_UNDEF \<Rightarrow> Keep)
      | CL_UNDEF \<Rightarrow>
          (case fc of
             CL_UNDEF \<Rightarrow> (if tweak \<and> \<not> fweak then Promote else Keep)
           | _ \<Rightarrow> Overwrite))"

text \<open>
  Modelled from the spec: the order of the visibilities, the more restrictive of two, the
  overwriting of a record by an incoming symbol (the name, the version and the flags
  stay), and the Resolver.
\<close>

fun visibility_rank :: "STV \<Rightarrow> nat" where
  "visibility_rank STV_DEFAULT = 0"
| "visibility_rank STV_PROTECTED = 1"
| "visibility_rank STV_HIDDEN = 2"
| "visibility_rank STV_INTERNAL = 3"

definition merge_visibility :: "STV \<Rightarrow> STV \<Rightarrow> STV" where
  "merge_visibility a b = (if visibility_rank b \<le> visibility_rank a then a else b)"

definition override :: "symbol \<Rightarrow> elf_sym \<Rightarrow> object \<Rightarrow> symbol" where
  "override to esym object =
     to \<lparr> sym_type := st_type esym, binding := st_bind esym, nonvis := st_nonvis esym,
          source := FROM_OBJECT object (st_shndx esym), sym_value := st_value esym,
          symsize := st_size esym \<rparr>"

definition resolve :: "symbol \<Rightarrow> elf_sym \<Rightarrow> object \<Rightarrow> error + symbol" where
  "resolve to esym object =
     (let merged = to \<lparr> visibility := merge_visibility (visibility to) (st_visibility esym),
                         in_dyn := (in_dyn to \<or> obj_is_dynamic object) \<rparr>
      in case resolve_action (symbol_class to) (binding to = STB_WEAK) (symbol_is_dynamic to)
                (esym_class esym) (st_bind esym = STB_WEAK) (obj_is_dynamic object) of
           Multi_Def \<Rightarrow> Inl (Multiple_Definition (sym_name to))
         | Keep \<Rightarrow> Inr merged
         | Overwrite \<Rightarrow> Inr (override merged esym object)
         | Merge_Common \<Rightarrow>
             Inr (merged \<lparr> symsize := max (symsize to) (st_size esym),
                           sym_value := max (sym_value to) (st_value esym) \<rparr>)
         | Promote \<Rightarrow> Inr (merged \<lparr> binding := st_bind esym \<rparr>))"

text \<open>
  \<^verbatim>\<open>Symbol_table::resolve(to, from)\<close> of symtab.cc: the record \<open>from\<close> is converted back
  to an ELF symbol (the name field is not set) and resolved into \<open>to\<close>. The accessors
  \<^verbatim>\<open>shnum()\<close> and \<^verbatim>\<open>object()\<close> are those of a FromObject record.
\<close>

definition resolve_symbol :: "symbol \<Rightarrow> symbol \<Rightarrow> error + symbol" where
  "resolve_symbol to from =
     (case source from of
        FROM_OBJECT object shnum \<Rightarrow>
          resolve to
            \<lparr> st_name = 0, st_value = sym_value from, st_size = symsize from,
              st_bind = binding from, st_type = sym_type from,
              st_visibility = visibility from, st_nonvis = nonvis from,
              st_shndx = shnum \<rparr> object
      | _ \<Rightarrow> Inl Assert_Failed)"

subsection \<open>Adding one symbol\<close>

text \<open>
  The end of \<^verbatim>\<open>add_from_object\<close>: count a newly undefined symbol and append a newly
  COMMON one to the commons list.
\<close>

definition note_undefined_common :: "symbol_table \<Rightarrow> addr \<Rightarrow> bool \<Rightarrow> bool \<Rightarrow> symbol_table" where
  "note_undefined_common st ret was_undefined was_common =
     (let st1 = (if \<not> was_undefined \<and> is_undefined (heap st ! ret)
                 then st \<lparr> saw_undefined := Suc (saw_undefined st) \<rparr> else st)
      in if \<not> was_common \<and> is_common (heap st1 ! ret)
         then st1 \<lparr> commons := commons st1 @ [ret] \<rparr> else st1)"

text \<open>
  \<^verbatim>\<open>Symbol_table::add_from_object\<close>. The result is the new table and the symbol pointer
  returned (null after the target's factory declined).
\<close>

definition add_from_object ::
  "nat \<Rightarrow> bool \<Rightarrow> symbol_table \<Rightarrow> object \<Rightarrow> string \<Rightarrow> key \<Rightarrow> string option \<Rightarrow> key \<Rightarrow> bool
     \<Rightarrow> elf_sym \<Rightarrow> error + (symbol_table \<times> addr option)" where
  "add_from_object sz big_endian st object name name_key version version_key def esym =
     (let ins = table_insert (table st) (name_key, version_key);
          insdef = (if def then table_insert (fst ins) (name_key, 0) else (fst ins, False));
          t = fst insdef
      in
      if \<not> snd ins then
        \<comment> \<open>We already have an entry for NAME/VERSION.\<close>
        (case table_value t (name_key, version_key) of
           None \<Rightarrow> Inl Assert_Failed
         | Some ret \<Rightarrow>
             (let was_undefined = is_undefined (heap st ! ret);
                  was_common = is_common (heap st ! ret)
              in case resolve (heap st ! ret) esym object of
                   Inl e \<Rightarrow> Inl e
                 | Inr r1 \<Rightarrow>
                     (let st1 = st \<lparr> table := t, heap := (heap st)[ret := r1] \<rparr> in
                      if def then
                        (if snd insdef then
                           Inr (note_undefined_common
                                  (st1 \<lparr> table := table_set t (name_key, 0) (Some ret) \<rparr>)
                                  ret was_undefined was_common, Some ret)
                         else if table_value t (name_key, 0) = Some ret then
                           Inr (note_undefined_common st1 ret was_undefined was_common, Some ret)
                         else
                           \<comment> \<open>Entries for both NAME/VERSION and NAME/NULL.\<close>
                           (case table_value t (name_key, 0) of
                              None \<Rightarrow> Inl Null_Pointer
                            | Some sym2 \<Rightarrow>
                                (case resolve_symbol r1 (heap st1 ! sym2) of
                                   Inl e \<Rightarrow> Inl e
                                 | Inr r2 \<Rightarrow>
                                     (case make_forwarder
                                             (st1 \<lparr> heap := (heap st1)[ret := r2] \<rparr>) sym2 ret of
                                        Inl e \<Rightarrow> Inl e
                                      | Inr st2 \<Rightarrow>
                                          Inr (note_undefined_common
                                                 (st2 \<lparr> table := table_set t (name_key, 0) (Some ret) \<rparr>)
                                                 ret was_undefined was_common, Some ret)))))
                      else Inr (note_undefined_common st1 ret was_undefined was_common, Some ret))))
      else if def \<and> \<not> snd insdef then
        \<comment> \<open>First time for NAME/VERSION, but NAME/NULL has an entry: point to it.\<close>
        (case table_value t (name_key, 0) of
           None \<Rightarrow> Inl Null_Pointer
         | Some ret \<Rightarrow>
             (case resolve (heap st ! ret) esym object of
                Inl e \<Rightarrow> Inl e
              | Inr r1 \<Rightarrow>
                  Inr (note_undefined_common
                         (st \<lparr> table := table_set t (name_key, version_key) (Some ret),
                               heap := (heap st)[ret := r1] \<rparr>)
                         ret False False, Some ret)))
      else if t_has_make_symbol (obj_target object) \<and> t_make_symbol_null (obj_target object) then
        \<comment> \<open>The target does not want a symbol table entry after all.\<close>
        Inr (st \<lparr> table := (if \<not> def then table_erase t (name_key, version_key)
                             else table_erase (table_erase t (name_key, 0))
                                    (name_key, version_key)) \<rparr>, None)
      else
        (let ret = length (heap st);
             t1 = table_set t (name_key, version_key) (Some ret);
             t2 = (if def then table_set t1 (name_key, 0) (Some ret) else t1)
         in Inr (note_undefined_common
                   (st \<lparr> table := t2,
                         heap := heap st @ [init_from_object name version object esym] \<rparr>)
                   ret False False, Some ret)))"

subsection \<open>Adding the symbols of an object\<close>

text \<open>
  The C string at an offset of a string table, and \<^verbatim>\<open>strchr\<close> as the index of the first
  occurrence of a character.
\<close>

definition c_string :: "string \<Rightarrow> nat \<Rightarrow> string" where
  "c_string buf off = takeWhile (\<lambda>c. c \<noteq> CHR 0x00) (drop off buf)"

fun strchr :: "string \<Rightarrow> char \<Rightarrow> nat option" where
  "strchr [] c = None"
| "strchr (x # xs) c = (if x = c then Some 0 else map_option Suc (strchr xs c))"

text \<open>
  One turn of the loop of \<^verbatim>\<open>Symbol_table::add_from_relobj\<close>, for the symbol \<open>esym\<close> at
  index \<open>i\<close>: the new table and the pointer stored in \<^verbatim>\<open>sympointers[i]\<close>.
\<close>

definition add_from_relobj_sym ::
  "nat \<Rightarrow> bool \<Rightarrow> object \<Rightarrow> string \<Rightarrow> symbol_table \<Rightarrow> nat \<Rightarrow> elf_sym
     \<Rightarrow> error + (symbol_table \<times> addr option)" where
  "add_from_relobj_sym sz big_endian relobj sym_names st i esym =
     (if length sym_names \<le> st_name esym then
        Inl (Bad_Global_Symbol_Name_Offset (obj_name relobj) (st_name esym) i)
      else
        (let name = c_string sym_names (st_name esym);
             \<comment> \<open>A symbol defined in a section which is not included is undefined.\<close>
             psym = (if st_shndx esym \<noteq> SHN_UNDEF \<and> st_shndx esym < SHN_LORESERVE
                        \<and> \<not> is_section_included relobj (st_shndx esym)
                     then esym \<lparr> st_shndx := SHN_UNDEF \<rparr> else esym)
         in case strchr name CHR ''@'' of
              None \<Rightarrow>
                (let nk = stringpool_add (namepool st) name
                 in add_from_object sz big_endian (st \<lparr> namepool := fst nk \<rparr>) relobj
                      name (snd nk) None 0 False psym)
            | Some n \<Rightarrow>
                (let nk = stringpool_add (namepool st) (take n name);
                     ver0 = drop (Suc n) name;
                     def = (case ver0 of [] \<Rightarrow> False | c # cs \<Rightarrow> c = CHR ''@'');
                     ver = (if def then drop 1 ver0 else ver0);
                     vk = stringpool_add (fst nk) ver
                 in add_from_object sz big_endian (st \<lparr> namepool := fst vk \<rparr>) relobj
                      (take n name) (snd nk) (Some ver) (snd vk) def psym)))"

fun add_from_relobj_loop ::
  "nat \<Rightarrow> bool \<Rightarrow> object \<Rightarrow> string \<Rightarrow> nat \<Rightarrow> elf_sym list \<Rightarrow> symbol_table \<Rightarrow> addr option list
     \<Rightarrow> error + (symbol_table \<times> addr option list)" where
  "add_from_relobj_loop sz big_endian relobj sym_names i [] st sympointers = Inr (st, sympointers)"
| "add_from_relobj_loop sz big_endian relobj sym_names i (esym # syms) st sympointers =
     (case add_from_relobj_sym sz big_endian relobj sym_names st i esym of
        Inl e \<Rightarrow> Inl e
      | Inr (st', res) \<Rightarrow>
          add_from_relobj_loop sz big_endian relobj sym_names (Suc i) syms st'
            (sympointers @ [res]))"

text \<open>
  \<^verbatim>\<open>Symbol_table::add_from_relobj\<close>. \<open>count\<close> is the length of \<open>syms\<close> and
  \<open>sym_name_size\<close> the length of \<open>sym_names\<close>; the result holds the pointers written
  to \<^verbatim>\<open>sympointers\<close>.
\<close>

definition add_from_relobj ::
  "nat \<Rightarrow> bool \<Rightarrow> symbol_table \<Rightarrow> object \<Rightarrow> elf_sym list \<Rightarrow> string
     \<Rightarrow> error + (symbol_table \<times> addr option list)" where
  "add_from_relobj sz big_endian st relobj syms sym_names =
     (let st1 = (if get_size st = 0 then st \<lparr> elf_size := sz \<rparr> else st) in
      if sz \<noteq> get_size st1 then Inl (Mixed_Size (obj_name relobj))
      else if sz \<noteq> t_size (obj_target relobj) then Inl (Mixed_Size (obj_name relobj))
      else add_from_relobj_loop sz big_endian relobj sym_names 0 syms st1 [])"

text \<open>
  One turn of the loop of \<^verbatim>\<open>Symbol_table::add_from_dynobj\<close>. \<open>versym\<close> holds the
  16-bit version indexes already decoded (\<open>None\<close> for a null pointer), and
  \<open>version_map\<close> the version names, a null entry being \<open>None\<close>.
\<close>

definition add_from_dynobj_sym ::
  "nat \<Rightarrow> bool \<Rightarrow> object \<Rightarrow> string \<Rightarrow> nat list option \<Rightarrow> string option list
     \<Rightarrow> symbol_table \<Rightarrow> nat \<Rightarrow> elf_sym \<Rightarrow> error + symbol_table" where
  "add_from_dynobj_sym sz big_endian dynobj sym_names versym version_map st i esym =
     (if st_bind esym = STB_LOCAL then Inr st
      else if length sym_names \<le> st_name esym then
        Inl (Bad_Symbol_Name_Offset (obj_name dynobj) (st_name esym) i)
      else
        (let name = c_string sym_names (st_name esym);
             nk = stringpool_add (namepool st) name;
             st1 = st \<lparr> namepool := fst nk \<rparr>
         in case versym of
              None \<Rightarrow>
                map_sum id fst
                  (add_from_object sz big_endian st1 dynobj name (snd nk) None 0 False esym)
            | Some vs \<Rightarrow>
                (let hidden = ((vs ! i) AND VERSYM_HIDDEN \<noteq> 0);
                     v = (vs ! i) AND VERSYM_VERSION
                 in if v = VER_NDX_LOCAL then Inr st
                    else if v = VER_NDX_GLOBAL then
                      map_sum id fst
                        (add_from_object sz big_endian st1 dynobj name (snd nk) None 0 False esym)
                    else if length version_map \<le> v then
                      Inl (Versym_Out_Of_Range (obj_name dynobj) i v)
                    else
                      (case version_map ! v of
                         None \<Rightarrow> Inl (Versym_Has_No_Name (obj_name dynobj) i v)
                       | Some version \<Rightarrow>
                           (let vk = stringpool_add (fst nk) version;
                                st2 = st \<lparr> namepool := fst vk \<rparr>
                            in if st_shndx esym = SHN_ABS \<and> snd nk = snd vk then
                                 map_sum id fst
                                   (add_from_object sz big_endian st2 dynobj name (snd nk)
                                      None 0 False esym)
                               else
                                 map_sum id fst
                                   (add_from_object sz big_endian st2 dynobj name (snd nk)
                                      (Some version) (snd vk)
                                      (\<not> hidden \<and> st_shndx esym \<noteq> SHN_UNDEF) esym))))))"

fun add_from_dynobj_loop ::
  "nat \<Rightarrow> bool \<Rightarrow> object \<Rightarrow> string \<Rightarrow> nat list option \<Rightarrow> string option list \<Rightarrow> nat
     \<Rightarrow> elf_sym list \<Rightarrow> symbol_table \<Rightarrow> error + symbol_table" where
  "add_from_dynobj_loop sz big_endian dynobj sym_names versym version_map i [] st = Inr st"
| "add_from_dynobj_loop sz big_endian dynobj sym_names versym version_map i (esym # syms) st =
     (case add_from_dynobj_sym sz big_endian dynobj sym_names versym version_map st i esym of
        Inl e \<Rightarrow> Inl e
      | Inr st' \<Rightarrow>
          add_from_dynobj_loop sz big_endian dynobj sym_names versym version_map (Suc i) syms st')"

text \<open>
  \<^verbatim>\<open>Symbol_table::add_from_dynobj\<close>. \<open>count\<close> is the length of \<open>syms\<close>,
  \<open>sym_name_size\<close> the length of \<open>sym_names\<close> and \<open>versym_size\<close> twice the length of
  \<open>versym\<close>.
\<close>

definition add_from_dynobj ::
  "nat \<Rightarrow> bool \<Rightarrow> symbol_table \<Rightarrow> object \<Rightarrow> elf_sym list \<Rightarrow> string \<Rightarrow> nat list option
     \<Rightarrow> string option list \<Rightarrow> error + symbol_table" where
  "add_from_dynobj sz big_endian st dynobj syms sym_names versym version_map =
     (let st1 = (if get_size st = 0 then st \<lparr> elf_size := sz \<rparr> else st) in
      if sz \<noteq> get_size st1 then Inl (Mixed_Size (obj_name dynobj))
      else if sz \<noteq> t_size (obj_target dynobj) then Inl (Mixed_Size (obj_name dynobj))
      else if (case versym of None \<Rightarrow> False | Some vs \<Rightarrow> length vs < length syms) then
        Inl (Too_Few_Symbol_Versions (obj_name dynobj))
      else add_from_dynobj_loop sz big_endian dynobj sym_names versym version_map 0 syms st1)"

subsection \<open>Symbols defined by the linker\<close>

text \<open>
  The contents of a symbol just allocated by \<^verbatim>\<open>new Sized_symbol<size>()\<close>; each caller
  of \<open>define_special_symbol\<close> overwrites them at once with one of the \<open>init\<close>
  functions.
\<close>

definition Sized_symbol_new :: symbol where
  "Sized_symbol_new = init_constant [] 0 0 STT_NOTYPE STB_LOCAL STV_DEFAULT 0"

text \<open>
  The end of \<^verbatim>\<open>define_special_symbol\<close>, reached with a non-null \<open>oldsym\<close>: an old
  definition is reported as a multiple definition and a null pointer returned, otherwise
  the old record is the one to define. The third component of a result lists the
  diagnostics printed without ending the link.
\<close>

definition define_special_old ::
  "symbol_table \<Rightarrow> addr \<Rightarrow> string \<Rightarrow> error + (symbol_table \<times> addr option \<times> error list)" where
  "define_special_old st oldsym name =
     (case source (heap st ! oldsym) of
        FROM_OBJECT object old_shnum \<Rightarrow>
          (if old_shnum \<noteq> SHN_UNDEF \<and> old_shnum \<noteq> SHN_COMMON \<and> \<not> obj_is_dynamic object
           then Inr (st, None, [Multiple_Definition name])
           else Inr (st, Some oldsym, []))
      | _ \<Rightarrow> Inl Assert_Failed)"

text \<open>\<^verbatim>\<open>Symbol_table::define_special_symbol\<close>.\<close>

definition define_special_symbol ::
  "nat \<Rightarrow> bool \<Rightarrow> symbol_table \<Rightarrow> target \<Rightarrow> string \<Rightarrow> bool
     \<Rightarrow> error + (symbol_table \<times> addr option \<times> error list)" where
  "define_special_symbol sz big_endian st target name only_if_ref =
     (if elf_size st \<noteq> sz then Inl Assert_Failed
      else if only_if_ref then
        (case lookup st name None of
           None \<Rightarrow> Inr (st, None, [])
         | Some oldsym \<Rightarrow>
             (if is_undefined (heap st ! oldsym) then define_special_old st oldsym name
              else Inr (st, None, [])))
      else
        (let nk = stringpool_add (namepool st) name;
             ins = table_insert (table st) (snd nk, 0);
             st1 = st \<lparr> table := fst ins, namepool := fst nk \<rparr>
         in if \<not> snd ins then
              \<comment> \<open>We already have a symbol table entry for NAME.\<close>
              (case table_value (fst ins) (snd nk, 0) of
                 None \<Rightarrow> Inl Assert_Failed
               | Some oldsym \<Rightarrow> define_special_old st1 oldsym name)
            else if t_has_make_symbol target \<and> t_size target \<noteq> sz then Inl Assert_Failed
            else if t_has_make_symbol target \<and> t_big_endian target \<noteq> big_endian then
              Inl Assert_Failed
            else if t_has_make_symbol target \<and> t_make_symbol_null target then
              Inr (st1, None, [])
            else
              Inr (st1 \<lparr> table := table_set (fst ins) (snd nk, 0) (Some (length (heap st))),
                         heap := heap st @ [Sized_symbol_new] \<rparr>,
                   Some (length (heap st)), [])))"

text \<open>
  \<^verbatim>\<open>do_define_in_output_data\<close>, \<^verbatim>\<open>do_define_in_output_segment\<close> and
  \<^verbatim>\<open>do_define_as_constant\<close>: the symbol that \<open>define_special_symbol\<close> returns, if any,
  is initialized.
\<close>

definition do_define ::
  "nat \<Rightarrow> symbol_table \<Rightarrow> target \<Rightarrow> string \<Rightarrow> bool \<Rightarrow> symbol
     \<Rightarrow> error + (symbol_table \<times> error list)" where
  "do_define sz st target name only_if_ref inited =
     (case define_special_symbol sz (t_big_endian target) st target name only_if_ref of
        Inl e \<Rightarrow> Inl e
      | Inr (st1, None, msgs) \<Rightarrow> Inr (st1, msgs)
      | Inr (st1, Some s, msgs) \<Rightarrow> Inr (st1 \<lparr> heap := (heap st1)[s := inited] \<rparr>, msgs))"

definition do_define_in_output_data ::
  "nat \<Rightarrow> symbol_table \<Rightarrow> target \<Rightarrow> string \<Rightarrow> output_data \<Rightarrow> nat \<Rightarrow> nat \<Rightarrow> STT \<Rightarrow> STB \<Rightarrow> STV
     \<Rightarrow> nat \<Rightarrow> bool \<Rightarrow> bool \<Rightarrow> error + (symbol_table \<times> error list)" where
  "do_define_in_output_data sz st target name od val ssize type bind vis nv
       offset_is_from_end only_if_ref =
     do_define sz st target name only_if_ref
       (init_in_output_data name od val ssize type bind vis nv offset_is_from_end)"

definition do_define_in_output_segment ::
  "nat \<Rightarrow> symbol_table \<Rightarrow> target \<Rightarrow> string \<Rightarrow> output_segment \<Rightarrow> nat \<Rightarrow> nat \<Rightarrow> STT \<Rightarrow> STB
     \<Rightarrow> STV \<Rightarrow> nat \<Rightarrow> segment_offset_base \<Rightarrow> bool \<Rightarrow> error + (symbol_table \<times> error list)" where
  "do_define_in_output_segment sz st target name os val ssize type bind vis nv
       offset_base only_if_ref =
     do_define sz st target name only_if_ref
       (init_in_output_segment name os val ssize type bind vis nv offset_base)"

definition do_define_as_constant ::
  "nat \<Rightarrow> symbol_table \<Rightarrow> target \<Rightarrow> string \<Rightarrow> nat \<Rightarrow> nat \<Rightarrow> STT \<Rightarrow> STB \<Rightarrow> STV \<Rightarrow> nat \<Rightarrow> bool
     \<Rightarrow> error + (symbol_table \<times> error list)" where
  "do_define_as_constant sz st target name val ssize type bind vis nv only_if_ref =
     do_define sz st target name only_if_ref
       (init_constant name val ssize type bind vis nv)"

text \<open>
  \<^verbatim>\<open>define_in_output_data\<close>, \<^verbatim>\<open>define_in_output_segment\<close> and \<^verbatim>\<open>define_as_constant\<close>:
  the dispatch on the size of the table. The 64-bit arguments are converted to the
  address type of the size.
\<close>

definition define_in_output_data ::
  "symbol_table \<Rightarrow> target \<Rightarrow> string \<Rightarrow> output_data \<Rightarrow> nat \<Rightarrow> nat \<Rightarrow> STT \<Rightarrow> STB \<Rightarrow> STV
     \<Rightarrow> nat \<Rightarrow> bool \<Rightarrow> bool \<Rightarrow> error + (symbol_table \<times> error list)" where
  "define_in_output_data st target name od val ssize type bind vis nv
       offset_is_from_end only_if_ref =
     (if t_size target \<noteq> elf_size st then Inl Assert_Failed
      else if elf_size st = 32 then
        do_define_in_output_data 32 st target name od (val mod 2 ^ 32) (ssize mod 2 ^ 32)
          type bind vis nv offset_is_from_end only_if_ref
      else if elf_size st = 64 then
        do_define_in_output_data 64 st target name od (val mod 2 ^ 64) (ssize mod 2 ^ 64)
          type bind vis nv offset_is_from_end only_if_ref
      else Inl Abort)"

definition define_in_output_segment ::
  "symbol_table \<Rightarrow> target \<Rightarrow> string \<Rightarrow> output_segment \<Rightarrow> nat \<Rightarrow> nat \<Rightarrow> STT \<Rightarrow> STB \<Rightarrow> STV
     \<Rightarrow> nat \<Rightarrow> segment_offset_base \<Rightarrow> bool \<Rightarrow> error + (symbol_table \<times> error list)" where
  "define_in_output_segment st target name os val ssize type bind vis nv
       offset_base only_if_ref =
     (if t_size target \<noteq> elf_size st then Inl Assert_Failed
      else if elf_size st = 32 then
        do_define_in_output_segment 32 st target name os (val mod 2 ^ 32) (ssize mod 2 ^ 32)
          type bind vis nv offset_base only_if_ref
      else if elf_size st = 64 then
        do_define_in_output_segment 64 st target name os (val mod 2 ^ 64) (ssize mod 2 ^ 64)
          type bind vis nv offset_base only_if_ref
      else Inl Abort)"

definition define_as_constant ::
  "symbol_table \<Rightarrow> target \<Rightarrow> string \<Rightarrow> nat \<Rightarrow> nat \<Rightarrow> STT \<Rightarrow> STB \<Rightarrow> STV \<Rightarrow> nat \<Rightarrow> bool
     \<Rightarrow> error + (symbol_table \<times> error list)" where
  "define_as_constant st target name val ssize type bind vis nv only_if_ref =
     (if t_size target \<noteq> elf_size st then Inl Assert_Failed
      else if elf_size st = 32 then
        do_define_as_constant 32 st target name (val mod 2 ^ 32) (ssize mod 2 ^ 32)
          type bind vis nv only_if_ref
      else if elf_size st = 64 then
        do_define_as_constant 64 st target name (val mod 2 ^ 64) (ssize mod 2 ^ 64)
          type bind vis nv only_if_ref
      else Inl Abort)"

subsection \<open>Setting the final values\<close>

text \<open>
  Modelled from the spec: \<^verbatim>\<open>align_address\<close> (layout.h), which rounds a file offset up
  to a multiple of the word size in bytes.
\<close>

definition align_address :: "nat \<Rightarrow> nat \<Rightarrow> nat" where
  "align_address off a = (if a = 0 then off else ((off + a - 1) div a) * a)"

text \<open>
  The \<^verbatim>\<open>switch\<close> of \<^verbatim>\<open>sized_finalize\<close> on the source of a symbol: the final value,
  \<open>None\<close> when the symbol is passed over (its section was discarded), or the error that
  ends the link. Values are of the address type of the size, so sums wrap.
\<close>

definition final_value :: "nat \<Rightarrow> symbol \<Rightarrow> error + nat option" where
  "final_value sz s =
     (case source s of
        FROM_OBJECT symobj shnum \<Rightarrow>
          (if SHN_LORESERVE \<le> shnum \<and> shnum \<noteq> SHN_ABS then
             Inl (Unsupported_Symbol_Section (sym_name s) shnum)
           else if obj_is_dynamic symobj then Inr (Some 0)
           else if shnum = SHN_UNDEF then Inr (Some 0)
           else if shnum = SHN_ABS then Inr (Some (sym_value s))
           else
             (case output_section symobj shnum of
                None \<Rightarrow> Inr None
              | Some (address, secoff) \<Rightarrow>
                  Inr (Some ((sym_value s + address + secoff) mod 2 ^ sz))))
      | IN_OUTPUT_DATA od offset_is_from_end \<Rightarrow>
          Inr (Some ((sym_value s + od_address od
                       + (if offset_is_from_end then od_data_size od else 0)) mod 2 ^ sz))
      | IN_OUTPUT_SEGMENT os offset_base \<Rightarrow>
          Inr (Some ((sym_value s + seg_vaddr os
                       + (case offset_base of
                            SEGMENT_START \<Rightarrow> 0
                          | SEGMENT_END \<Rightarrow> seg_memsz os
                          | SEGMENT_BSS \<Rightarrow> seg_filesz os)) mod 2 ^ sz))
      | CONSTANT \<Rightarrow> Inr (Some (sym_value s)))"

text \<open>
  The loop of \<^verbatim>\<open>sized_finalize\<close> over the entries of the hash table: it threads the
  symbols, the count, the file offset and the output string pool.
\<close>

fun sized_finalize_loop ::
  "nat \<Rightarrow> symbol_table_type \<Rightarrow> symbol list \<Rightarrow> nat \<Rightarrow> nat \<Rightarrow> string list
     \<Rightarrow> error + (symbol list \<times> nat \<times> nat \<times> string list)" where
  "sized_finalize_loop sz [] h count off pool = Inr (h, count, off, pool)"
| "sized_finalize_loop sz (e # es) h count off pool =
     (case snd e of
        None \<Rightarrow> Inl Null_Pointer
      | Some p \<Rightarrow>
          (case final_value sz (h ! p) of
             Inl err \<Rightarrow> Inl err
           | Inr None \<Rightarrow> sized_finalize_loop sz es h count off pool
           | Inr (Some v) \<Rightarrow>
               sized_finalize_loop sz es (h[p := (h ! p) \<lparr> sym_value := v \<rparr>]) (Suc count)
                 (off + sym_size sz) (fst (stringpool_add pool (sym_name (h ! p))))))"

text \<open>
  \<^verbatim>\<open>Symbol_table::sized_finalize\<close>: the new table, the file offset returned and the
  output string pool.
\<close>

definition sized_finalize ::
  "nat \<Rightarrow> symbol_table \<Rightarrow> nat \<Rightarrow> string list \<Rightarrow> error + (symbol_table \<times> nat \<times> string list)" where
  "sized_finalize sz st off pool =
     (case sized_finalize_loop sz (table st) (heap st) 0 (align_address off (sz div 8)) pool of
        Inl err \<Rightarrow> Inl err
      | Inr (h, count, off1, pool1) \<Rightarrow>
          Inr (st \<lparr> offset := align_address off (sz div 8), output_count := count, heap := h \<rparr>,
               off1, pool1))"

section \<open>Predicates of the properties\<close>

text \<open>
  The condition under which \<open>final_value\<close> ends the link for a symbol, with the error
  it reports.
\<close>

definition unsupported :: "symbol \<Rightarrow> error \<Rightarrow> bool" where
  "unsupported s err =
     (\<exists>ob shnum. source s = FROM_OBJECT ob shnum \<and> SHN_LORESERVE \<le> shnum \<and> shnum \<noteq> SHN_ABS
        \<and> err = Unsupported_Symbol_Section (sym_name s) shnum)"

text \<open>
  The symbols that the hash table points to, and the invariant of the commons list: every
  such pointer is a symbol of the heap, and one that is COMMON is in the commons list.
\<close>

definition table_symbols :: "symbol_table_type \<Rightarrow> addr set" where
  "table_symbols t = {p. \<exists>k. (k, Some p) \<in> set t}"

definition commons_inv :: "symbol_table \<Rightarrow> bool" where
  "commons_inv st =
     (\<forall>p \<in> table_symbols (table st).
        p < length (heap st) \<and> (is_common (heap st ! p) \<longrightarrow> p \<in> set (commons st)))"

text \<open>
  The symbol tables that a link can build: from the empty table by adding the symbols of
  relocatable and dynamic objects and by the definitions of the linker, each operation
  having returned without ending the link.
\<close>

inductive reachable :: "symbol_table \<Rightarrow> bool" where
  reachable_new: "reachable Symbol_table_new"
| reachable_relobj:
    "reachable st \<Longrightarrow> add_from_relobj sz big_endian st relobj syms sym_names = Inr (st', sympointers)
       \<Longrightarrow> reachable st'"
| reachable_dynobj:
    "reachable st
       \<Longrightarrow> add_from_dynobj sz big_endian st dynobj syms sym_names versym version_map = Inr st'
       \<Longrightarrow> reachable st'"
| reachable_data:
    "reachable st
       \<Longrightarrow> define_in_output_data st target name od val ssize type bind vis nv
             offset_is_from_end only_if_ref = Inr (st', msgs)
       \<Longrightarrow> reachable st'"
| reachable_segment:
    "reachable st
       \<Longrightarrow> define_in_output_segment st target name os val ssize type bind vis nv
             offset_base only_if_ref = Inr (st', msgs)
       \<Longrightarrow> reachable st'"
| reachable_constant:
    "reachable st
       \<Longrightarrow> define_as_constant st target name val ssize type bind vis nv only_if_ref
             = Inr (st', msgs)
       \<Longrightarrow> reachable st'"


section \<open>Example inputs\<close>

text \<open>
  Two 32-bit targets of either endianness and one whose symbol factory declines every
  symbol; relocatable objects for them, the first with one included section that is laid
  out at address 4096 with offset 16.
\<close>

definition target_le :: target where
  "target_le = \<lparr> t_size = 32, t_big_endian = False, t_has_make_symbol = False,
                   t_make_symbol_null = False \<rparr>"

definition target_be :: target where
  "target_be = \<lparr> t_size = 32, t_big_endian = True, t_has_make_symbol = False,
                   t_make_symbol_null = False \<rparr>"

definition target_declining :: target where
  "target_declining = \<lparr> t_size = 32, t_big_endian = False, t_has_make_symbol = True,
                          t_make_symbol_null = True \<rparr>"

definition object_a :: object where
  "object_a = \<lparr> obj_name = ''a.o'', obj_is_dynamic = False, obj_target = target_le,
                  obj_included = [1], obj_output_section = [(1, (4096, 16))] \<rparr>"

definition object_be :: object where
  "object_be = \<lparr> obj_name = ''b.o'', obj_is_dynamic = False, obj_target = target_be,
                   obj_included = [1], obj_output_section = [(1, (8192, 0))] \<rparr>"

definition object_declined :: object where
  "object_declined = \<lparr> obj_name = ''c.o'', obj_is_dynamic = False,
                         obj_target = target_declining, obj_included = [1],
                         obj_output_section = [] \<rparr>"

text \<open>
  ELF symbols with a given name offset: a weak function defined in section 1, a global
  undefined reference, a global object defined in section 1, a COMMON of size 8 and a
  symbol with local binding.
\<close>

definition esym_weak_def :: "nat \<Rightarrow> elf_sym" where
  "esym_weak_def n = \<lparr> st_name = n, st_value = 0, st_size = 4, st_bind = STB_WEAK,
                        st_type = STT_FUNC, st_visibility = STV_DEFAULT, st_nonvis = 0,
                        st_shndx = 1 \<rparr>"

definition esym_undef :: "nat \<Rightarrow> elf_sym" where
  "esym_undef n = \<lparr> st_name = n, st_value = 0, st_size = 0, st_bind = STB_GLOBAL,
                     st_type = STT_NOTYPE, st_visibility = STV_DEFAULT, st_nonvis = 0,
                     st_shndx = 0 \<rparr>"

definition esym_def :: "nat \<Rightarrow> elf_sym" where
  "esym_def n = \<lparr> st_name = n, st_value = 4, st_size = 4, st_bind = STB_GLOBAL,
                   st_type = STT_OBJECT, st_visibility = STV_DEFAULT, st_nonvis = 0,
                   st_shndx = 1 \<rparr>"

definition esym_common :: "nat \<Rightarrow> elf_sym" where
  "esym_common n = \<lparr> st_name = n, st_value = 8, st_size = 8, st_bind = STB_GLOBAL,
                      st_type = STT_OBJECT, st_visibility = STV_DEFAULT, st_nonvis = 0,
                      st_shndx = 65522 \<rparr>"


text \<open>
  Symbol tables: after the object \<open>a.o\<close> brought the definition of \<open>foo\<close>; after
  \<open>b.o\<close> then brought a reference to \<open>bar\<close>; after the final values of the first were
  set once and twice; after \<open>a.o\<close> brought the COMMON \<open>buf\<close>, and after the linker then
  defined \<open>buf\<close> as a constant; after \<open>a.o\<close> brought the local symbol \<open>loc\<close>.
\<close>

definition st_foo :: symbol_table where
  "st_foo = \<lparr> elf_size = 32, saw_undefined = 0, offset = 0, output_count = 0,
      table = [((1, 0), Some 0)], namepool = [''foo''], forwarders = [], commons = [],
      heap = [init_from_object ''foo'' None object_a (esym_def 0)] \<rparr>"

definition st_foo_bar :: symbol_table where
  "st_foo_bar = \<lparr> elf_size = 32, saw_undefined = 1, offset = 0, output_count = 0,
      table = [((1, 0), Some 0), ((2, 0), Some 1)], namepool = [''foo'', ''bar''],
      forwarders = [], commons = [],
      heap = [init_from_object ''foo'' None object_a (esym_def 0),
              init_from_object ''bar'' None object_be (esym_undef 0)] \<rparr>"

definition st_foo_final :: "nat \<Rightarrow> symbol_table" where
  "st_foo_final v = \<lparr> elf_size = 32, saw_undefined = 0, offset = 0, output_count = 1,
      table = [((1, 0), Some 0)], namepool = [''foo''], forwarders = [], commons = [],
      heap = [(init_from_object ''foo'' None object_a (esym_def 0)) \<lparr> sym_value := v \<rparr>] \<rparr>"

definition st_buf :: symbol_table where
  "st_buf = \<lparr> elf_size = 32, saw_undefined = 0, offset = 0, output_count = 0,
      table = [((1, 0), Some 0)], namepool = [''buf''], forwarders = [], commons = [0],
      heap = [init_from_object ''buf'' None object_a (esym_common 0)] \<rparr>"

definition st_buf_constant :: symbol_table where
  "st_buf_constant = \<lparr> elf_size = 32, saw_undefined = 0, offset = 0, output_count = 0,
      table = [((1, 0), Some 0)], namepool = [''buf''], forwarders = [], commons = [0],
      heap = [init_constant ''buf'' 64 8 STT_OBJECT STB_GLOBAL STV_DEFAULT 0] \<rparr>"


text \<open>
  The table after \<open>a.o\<close> brought the COMMON \<open>buf\<close> and then \<open>buf@@V1\<close>, a COMMON too.
\<close>

definition st_buf_twice :: symbol_table where
  "st_buf_twice = \<lparr> elf_size = 32, saw_undefined = 0, offset = 0, output_count = 0,
      table = [((1, 0), Some 0), ((1, 2), Some 0)], namepool = [''buf'', ''V1''],
      forwarders = [], commons = [0, 0],
      heap = [init_from_object ''buf'' None object_a (esym_common 0)] \<rparr>"

text \<open>
  A string table with the names \<open>foo@@V1\<close>, \<open>foo@V2\<close> and \<open>foo@@V2\<close>, and the
  symbol tables while an object brings a weak definition of the first, a reference to
  the second and a weak definition of the third.
\<close>

definition versions_strtab :: string where
  "versions_strtab = ''foo@@V1'' @ [CHR 0x00] @ ''foo@V2'' @ [CHR 0x00] @ ''foo@@V2'' @ [CHR 0x00]"

definition st_v0 :: symbol_table where
  "st_v0 = \<lparr> elf_size = 32, saw_undefined = 0, offset = 0, output_count = 0,
      table = [], namepool = [], forwarders = [], commons = [], heap = [] \<rparr>"

definition st_v1 :: symbol_table where
  "st_v1 = \<lparr> elf_size = 32, saw_undefined = 0, offset = 0, output_count = 0,
      table = [((1, 2), Some 0), ((1, 0), Some 0)], namepool = [''foo'', ''V1''],
      forwarders = [], commons = [],
      heap = [init_from_object ''foo'' (Some ''V1'') object_a (esym_weak_def 0)] \<rparr>"

definition st_v2 :: symbol_table where
  "st_v2 = \<lparr> elf_size = 32, saw_undefined = 1, offset = 0, output_count = 0,
      table = [((1, 2), Some 0), ((1, 0), Some 0), ((1, 3), Some 1)],
      namepool = [''foo'', ''V1'', ''V2''], forwarders = [], commons = [],
      heap = [init_from_object ''foo'' (Some ''V1'') object_a (esym_weak_def 0),
              init_from_object ''foo'' (Some ''V2'') object_a (esym_undef 8)] \<rparr>"

definition st_v3 :: symbol_table where
  "st_v3 = \<lparr> elf_size = 32, saw_undefined = 1, offset = 0, output_count = 0,
      table = [((1, 2), Some 0), ((1, 0), Some 1), ((1, 3), Some 1)],
      namepool = [''foo'', ''V1'', ''V2''], forwarders = [(0, 1)], commons = [],
      heap = [(init_from_object ''foo'' (Some ''V1'') object_a (esym_weak_def 0))
                \<lparr> is_forwarder := True \<rparr>,
              init_from_object ''foo'' (Some ''V2'') object_a (esym_weak_def 15)] \<rparr>"




section \<open>Properties\<close>

lemmas shn_defs = SHN_UNDEF_def SHN_LORESERVE_def SHN_ABS_def SHN_COMMON_def

subsection \<open>The hash table and the name pool\<close>

lemma table_erase_absent: "map_of t k = None \<Longrightarrow> table_erase t k = t"
  by (induction t) (auto simp: table_erase_def split: if_splits)

lemma table_erase_append: "table_erase (t @ u) k = table_erase t k @ table_erase u k"
  by (simp add: table_erase_def)

lemma table_erase_Nil: "table_erase [] k = []"
  by (simp add: table_erase_def)

lemma table_erase_Cons:
  "table_erase (e # t) k = (if fst e = k then table_erase t k else e # table_erase t k)"
  by (simp add: table_erase_def)

lemma table_insert_absent: "map_of t k = None \<Longrightarrow> table_insert t k = (t @ [(k, None)], True)"
  by (simp add: table_insert_def)

lemma stringpool_find_None: "(stringpool_find pool s = None) = (s \<notin> set pool)"
  by (induction pool) auto

lemma stringpool_find_append:
  "stringpool_find (pool @ [s]) s =
     (case stringpool_find pool s of Some k \<Rightarrow> Some k | None \<Rightarrow> Some (Suc (length pool)))"
  by (induction pool) (auto split: option.splits)

lemma stringpool_find_add:
  "stringpool_find (fst (stringpool_add pool s)) s = Some (snd (stringpool_add pool s))"
  by (auto simp: stringpool_add_def stringpool_find_append split: option.splits)

lemma stringpool_add_present:
  "s \<in> set pool \<Longrightarrow> fst (stringpool_add pool s) = pool"
proof -
  assume "s \<in> set pool"
  then have "stringpool_find pool s \<noteq> None"
    by (simp add: stringpool_find_None)
  then show ?thesis
    by (auto simp: stringpool_add_def split: option.splits)
qed

lemma set_stringpool_add: "set (fst (stringpool_add pool s)) = insert s (set pool)"
proof (cases "s \<in> set pool")
  case True
  then show ?thesis by (auto simp: stringpool_add_present)
next
  case False
  then have "stringpool_find pool s = None"
    by (simp add: stringpool_find_None)
  then show ?thesis by (simp add: stringpool_add_def)
qed

lemma table_value_set_new:
  "map_of t k = None \<Longrightarrow> table_value (table_set (t @ [(k, None)]) k v) k = v"
  by (induction t) (auto simp: table_value_def table_set_def split: if_splits)

lemmas ingest_defs = add_from_relobj_def add_from_relobj_sym_def add_from_object_def
  get_size_def c_string_def stringpool_add_def table_insert_def table_value_def table_set_def
  table_erase_def note_undefined_common_def is_undefined_def is_common_def
  is_section_included_def init_from_object_def init_fields_def shn_defs Let_def

lemmas define_defs = define_as_constant_def do_define_as_constant_def do_define_def
  define_special_symbol_def define_special_old_def stringpool_add_def table_insert_def
  table_value_def table_set_def init_from_object_def init_constant_def init_fields_def
  is_undefined_def shn_defs Let_def

lemmas finalize_defs = sized_finalize_def final_value_def align_address_def sym_size_def
  output_section_def stringpool_add_def init_from_object_def init_constant_def init_fields_def
  shn_defs

subsection \<open>The example symbol tables\<close>

lemma st_foo_ingested:
  "add_from_relobj 32 False Symbol_table_new object_a [esym_def 0] (''foo'' @ [CHR 0x00])
     = Inr (st_foo, [Some 0])"
  by (simp add: ingest_defs Symbol_table_new_def st_foo_def object_a_def target_le_def
      esym_def_def)

lemma st_buf_ingested:
  "add_from_relobj 32 False Symbol_table_new object_a [esym_common 0] (''buf'' @ [CHR 0x00])
     = Inr (st_buf, [Some 0])"
  by (simp add: ingest_defs Symbol_table_new_def st_buf_def object_a_def target_le_def
      esym_common_def)

lemma st_buf_defined:
  "define_as_constant st_buf target_le ''buf'' 64 8 STT_OBJECT STB_GLOBAL STV_DEFAULT 0 False
     = Inr (st_buf_constant, [])"
  by (simp add: define_defs st_buf_def st_buf_constant_def target_le_def esym_common_def
      object_a_def)

lemma st_foo_finalized:
  "sized_finalize 32 st_foo 0 [] = Inr (st_foo_final 4116, 16, [''foo''])"
  by (simp add: finalize_defs st_foo_def st_foo_final_def esym_def_def object_a_def)

lemma st_foo_finalized_again:
  "sized_finalize 32 (st_foo_final 4116) 0 [''foo''] = Inr (st_foo_final 8228, 16, [''foo''])"
  by (simp add: finalize_defs st_foo_final_def esym_def_def object_a_def)

subsection \<open>A symbol that the target's factory declines\<close>

text \<open>
  C9. When \<open>add_from_object\<close> sees a (name, version) for the first time (for a default
  version: the name without version has no entry either, so the factory is asked) and
  the target's \<open>make_symbol\<close> answers with a null pointer, the entries inserted by the
  call are erased again, the null pointer is returned without an error, and the symbol
  table is the one before the call.
\<close>

theorem add_from_object_factory_null:
  assumes k: "map_of (table st) (name_key, version_key) = None"
    and k0: "def \<longrightarrow> version_key \<noteq> 0 \<and> map_of (table st) (name_key, 0) = None"
    and f: "t_has_make_symbol (obj_target object)" "t_make_symbol_null (obj_target object)"
  shows "add_from_object sz big_endian st object name name_key version version_key def esym
           = Inr (st, None)"
proof (cases def)
  case False
  then show ?thesis
    using k f
    by (simp add: add_from_object_def table_insert_absent table_erase_append
        table_erase_absent table_erase_Nil table_erase_Cons)
next
  case True
  with k0 have v: "version_key \<noteq> 0" and n: "map_of (table st) (name_key, 0) = None"
    by simp_all
  have i2: "table_insert (table st @ [((name_key, version_key), None)]) (name_key, 0)
        = (table st @ [((name_key, version_key), None)] @ [((name_key, 0), None)], True)"
    using v n by (simp add: table_insert_def map_add_def)
  show ?thesis
    using True k n v f
    by (simp add: add_from_object_def table_insert_absent i2 table_erase_append
        table_erase_absent table_erase_Nil table_erase_Cons)
qed

theorem add_from_object_factory_null_witness:
  "add_from_object 32 False Symbol_table_new object_declined ''foo'' 1 (Some ''V1'') 2 True
       (esym_def 0) = Inr (Symbol_table_new, None)
   \<and> add_from_object 32 False Symbol_table_new object_declined ''foo'' 1 None 0 False
       (esym_def 0) = Inr (Symbol_table_new, None)"
  using add_from_object_factory_null [of Symbol_table_new 1 2 True object_declined 32 False
      "''foo''" "Some ''V1''" "esym_def 0"]
    add_from_object_factory_null [of Symbol_table_new 1 0 False object_declined 32 False
      "''foo''" None "esym_def 0"]
  by (simp add: Symbol_table_new_def object_declined_def target_declining_def)

subsection \<open>Looking up a symbol\<close>

text \<open>
  C10. \<open>lookup\<close> is a function of the table that returns only a pointer, so it cannot
  fail and changes neither the name pool nor the hash table. It returns the null pointer
  when the name is not in the name pool, when a version is given that is not in the name
  pool, and when the hash table has no entry for the pair of keys.
\<close>

theorem lookup_absent:
  "(stringpool_find (namepool st) name = None \<longrightarrow> lookup st name version = None)
   \<and> (\<forall>v. version = Some v \<and> stringpool_find (namepool st) v = None
          \<longrightarrow> lookup st name version = None)
   \<and> (\<forall>name_key. stringpool_find (namepool st) name = Some name_key \<and> version = None
          \<and> map_of (table st) (name_key, 0) = None \<longrightarrow> lookup st name version = None)
   \<and> (\<forall>name_key v version_key. stringpool_find (namepool st) name = Some name_key
          \<and> version = Some v \<and> stringpool_find (namepool st) v = Some version_key
          \<and> map_of (table st) (name_key, version_key) = None
          \<longrightarrow> lookup st name version = None)"
  by (auto simp: lookup_def table_value_def split: option.splits)

theorem lookup_absent_witness:
  "lookup Symbol_table_new ''foo'' None = None
   \<and> lookup (Symbol_table_new \<lparr> namepool := [''foo''] \<rparr>) ''foo'' (Some ''V1'') = None
   \<and> lookup (Symbol_table_new \<lparr> namepool := [''foo''] \<rparr>) ''foo'' None = None
   \<and> lookup (Symbol_table_new \<lparr> namepool := [''foo'', ''V1''] \<rparr>) ''foo'' (Some ''V1'') = None"
  using lookup_absent [of Symbol_table_new "''foo''" None]
    lookup_absent [of "Symbol_table_new \<lparr> namepool := [''foo''] \<rparr>" "''foo''" "Some ''V1''"]
    lookup_absent [of "Symbol_table_new \<lparr> namepool := [''foo''] \<rparr>" "''foo''" None]
    lookup_absent [of "Symbol_table_new \<lparr> namepool := [''foo'', ''V1''] \<rparr>" "''foo''"
      "Some ''V1''"]
  by (simp add: Symbol_table_new_def)

subsection \<open>Inputs of different formats\<close>

text \<open>
  C4, as the code has it. The table records the word size of the first input, and an
  input of another word size ends the link with the diagnostic about mixing 32-bit and
  64-bit objects. Endianness is neither recorded nor compared.
\<close>

theorem mixed_size_fatal:
  assumes "get_size st \<noteq> 0" and "sz \<noteq> get_size st"
  shows "add_from_relobj sz big_endian st relobj syms sym_names = Inl (Mixed_Size (obj_name relobj))
       \<and> add_from_dynobj sz big_endian' st dynobj dynsyms dyn_names versym version_map
           = Inl (Mixed_Size (obj_name dynobj))"
  using assms by (simp add: add_from_relobj_def add_from_dynobj_def get_size_def)

text \<open>
  The recorded size is the size of every input taken in so far: an input is taken in only
  with the recorded size, or as the first, and then its size is recorded.
\<close>

lemma note_undefined_common_elf_size [simp]:
  "elf_size (note_undefined_common st ret wu wc) = elf_size st"
  by (simp add: note_undefined_common_def Let_def)

lemma make_forwarder_elf_size:
  "make_forwarder st from to = Inr st' \<Longrightarrow> elf_size st' = elf_size st"
  by (auto simp: make_forwarder_def split: if_splits)

lemma add_from_object_elf_size:
  "add_from_object sz big_endian st object name name_key version version_key def esym = Inr (st', r)
     \<Longrightarrow> elf_size st' = elf_size st"
  unfolding add_from_object_def Let_def
  by (auto split: if_splits option.splits sum.splits dest!: make_forwarder_elf_size)

lemma add_from_relobj_sym_elf_size:
  "add_from_relobj_sym sz big_endian relobj sym_names st i esym = Inr (st', r)
     \<Longrightarrow> elf_size st' = elf_size st"
  unfolding add_from_relobj_sym_def Let_def
  by (auto split: if_splits option.splits dest!: add_from_object_elf_size)

lemma add_from_relobj_loop_elf_size:
  "add_from_relobj_loop sz big_endian relobj sym_names i syms st ptrs = Inr (st', ptrs')
     \<Longrightarrow> elf_size st' = elf_size st"
proof (induction syms arbitrary: st i ptrs)
  case Nil
  then show ?case by simp
next
  case (Cons esym syms)
  then show ?case
    by (auto split: sum.splits dest!: add_from_relobj_sym_elf_size)
qed

lemma add_from_dynobj_sym_elf_size:
  "add_from_dynobj_sym sz big_endian dynobj sym_names versym version_map st i esym = Inr st'
     \<Longrightarrow> elf_size st' = elf_size st"
proof -
  have one: "elf_size s' = elf_size s"
    if "map_sum id fst
          (add_from_object sz big_endian s dynobj name name_key version version_key def esym)
          = Inr s'" for s s' name name_key version version_key def
    using that
    by (cases "add_from_object sz big_endian s dynobj name name_key version version_key def esym")
       (auto dest!: add_from_object_elf_size)
  assume "add_from_dynobj_sym sz big_endian dynobj sym_names versym version_map st i esym = Inr st'"
  then show ?thesis
    unfolding add_from_dynobj_sym_def Let_def
    by (auto split: if_splits option.splits dest!: one)
qed

lemma add_from_dynobj_loop_elf_size:
  "add_from_dynobj_loop sz big_endian dynobj sym_names versym version_map i syms st = Inr st'
     \<Longrightarrow> elf_size st' = elf_size st"
proof (induction syms arbitrary: st i)
  case Nil
  then show ?case by simp
next
  case (Cons esym syms)
  then show ?case
    by (auto split: sum.splits dest!: add_from_dynobj_sym_elf_size)
qed

lemma add_from_relobj_records_size:
  "add_from_relobj sz big_endian st relobj syms sym_names = Inr (st', ptrs)
     \<Longrightarrow> get_size st' = sz \<and> (get_size st = 0 \<or> get_size st = sz)"
  unfolding add_from_relobj_def Let_def get_size_def
  by (auto split: if_splits dest!: add_from_relobj_loop_elf_size)

lemma add_from_dynobj_records_size:
  "add_from_dynobj sz big_endian st dynobj syms sym_names versym version_map = Inr st'
     \<Longrightarrow> get_size st' = sz \<and> (get_size st = 0 \<or> get_size st = sz)"
  unfolding add_from_dynobj_def Let_def get_size_def
  by (auto split: if_splits dest!: add_from_dynobj_loop_elf_size)


theorem mixed_size_fatal_witness:
  "get_size st_foo = 32
   \<and> add_from_relobj 64 False st_foo object_a [esym_def 0] (''foo'' @ [CHR 0x00])
       = Inl (Mixed_Size ''a.o'')
   \<and> add_from_dynobj 64 False st_foo object_a [esym_def 0] (''foo'' @ [CHR 0x00]) None []
       = Inl (Mixed_Size ''a.o'')"
  using mixed_size_fatal [of st_foo 64 False object_a "[esym_def 0]" "''foo'' @ [CHR 0x00]"
      False object_a "[esym_def 0]" "''foo'' @ [CHR 0x00]" None "[]"]
  by (simp add: get_size_def st_foo_def object_a_def)

text \<open>
  The claim as stated fails: after a little-endian first input, a big-endian input of the
  same word size is taken in.
\<close>

theorem mixed_endianness_counterexample:
  "add_from_relobj 32 False Symbol_table_new object_a [esym_def 0] (''foo'' @ [CHR 0x00])
       = Inr (st_foo, [Some 0])
   \<and> t_big_endian (obj_target object_a) = False \<and> t_big_endian (obj_target object_be) = True
   \<and> add_from_relobj 32 True st_foo object_be [esym_undef 0] (''bar'' @ [CHR 0x00])
       = Inr (st_foo_bar, [Some 1])"
  using st_foo_ingested
  by (simp add: ingest_defs st_foo_def st_foo_bar_def object_a_def object_be_def target_le_def
      target_be_def esym_undef_def)

subsection \<open>A linker definition of a defined symbol\<close>

text \<open>
  C5, at an input where the code departs from it. \<open>foo\<close> is defined in a section of the
  relocatable object \<open>a.o\<close>; defining it as a constant, not only if referenced, prints
  the multiple definition diagnostic and returns: the link goes on with the table as it
  was, and nothing records that an error was seen.
\<close>

theorem define_as_constant_multiple_definition:
  "add_from_relobj 32 False Symbol_table_new object_a [esym_def 0] (''foo'' @ [CHR 0x00])
       = Inr (st_foo, [Some 0])
   \<and> source (heap st_foo ! 0) = FROM_OBJECT object_a 1 \<and> obj_is_dynamic object_a = False
   \<and> define_as_constant st_foo target_le ''foo'' 42 4 STT_OBJECT STB_GLOBAL STV_DEFAULT 0 False
       = Inr (st_foo, [Multiple_Definition ''foo''])"
  using st_foo_ingested
  by (simp add: define_defs st_foo_def target_le_def esym_def_def object_a_def)

text \<open>
  The same at every such call: when the name has a record that is a definition in a
  relocatable object, \<open>define_special_symbol\<close> returns a null pointer and the
  diagnostic, and the table is the one before the call.
\<close>

lemma define_special_symbol_multiple_definition:
  assumes "elf_size st = sz"
    and "stringpool_find (namepool st) name = Some name_key"
    and "map_of (table st) (name_key, 0) = Some (Some oldsym)"
    and "source (heap st ! oldsym) = FROM_OBJECT object old_shnum"
    and "old_shnum \<noteq> SHN_UNDEF" and "old_shnum \<noteq> SHN_COMMON" and "\<not> obj_is_dynamic object"
  shows "define_special_symbol sz big_endian st target name False
           = Inr (st, None, [Multiple_Definition name])"
  using assms
  by (simp add: define_special_symbol_def define_special_old_def stringpool_add_def
      table_insert_def table_value_def Let_def)


subsection \<open>Unsupported section indexes\<close>

lemma source_finalized [simp]:
  "source (h[p := (h ! p) \<lparr> sym_value := v \<rparr>] ! q) = source (h ! q)"
  by (cases "p < length h") (auto simp: nth_list_update list_update_beyond)

lemma sym_name_finalized [simp]:
  "sym_name (h[p := (h ! p) \<lparr> sym_value := v \<rparr>] ! q) = sym_name (h ! q)"
  by (cases "p < length h") (auto simp: nth_list_update list_update_beyond)

lemma unsupported_finalized [simp]:
  "unsupported (h[p := (h ! p) \<lparr> sym_value := v \<rparr>] ! q) err = unsupported (h ! q) err"
  by (simp add: unsupported_def)

lemma final_value_Inl: "(final_value sz s = Inl err) = unsupported s err"
  by (auto simp: final_value_def unsupported_def split: source.splits option.splits)

lemma sized_finalize_loop_fatal:
  assumes "\<forall>e \<in> set t. snd e \<noteq> None"
    and "sized_finalize_loop sz t h c off pool = Inl err"
  shows "\<exists>e \<in> set t. \<exists>p. snd e = Some p \<and> unsupported (h ! p) err"
  using assms
proof (induction t arbitrary: h c off pool)
  case Nil
  then show ?case by simp
next
  case (Cons e es)
  then obtain p where p: "snd e = Some p" by auto
  have es: "\<forall>e \<in> set es. snd e \<noteq> None" using Cons.prems by simp
  show ?case
  proof (cases "final_value sz (h ! p)")
    case (Inl x)
    then have "x = err" using p Cons.prems(2) by simp
    then show ?thesis using Inl p by (simp add: final_value_Inl)
  next
    case (Inr r)
    show ?thesis
    proof (cases r)
      case None
      then have "sized_finalize_loop sz es h c off pool = Inl err"
        using Inr p Cons.prems(2) by simp
      from Cons.IH [OF es this] show ?thesis by simp
    next
      case (Some v)
      then have "sized_finalize_loop sz es (h[p := (h ! p) \<lparr> sym_value := v \<rparr>]) (Suc c)
              (off + sym_size sz) (fst (stringpool_add pool (sym_name (h ! p)))) = Inl err"
        using Inr p Cons.prems(2) by simp
      from Cons.IH [OF es this] show ?thesis by simp
    qed
  qed
qed

lemma sized_finalize_loop_unsupported:
  assumes "e \<in> set t" and "snd e = Some p" and "unsupported (h ! p) err"
  shows "\<exists>err'. sized_finalize_loop sz t h c off pool = Inl err'"
  using assms
proof (induction t arbitrary: h c off pool)
  case Nil
  then show ?case by simp
next
  case (Cons x xs)
  show ?case
  proof (cases "snd x")
    case None
    then show ?thesis by simp
  next
    case (Some q)
    show ?thesis
    proof (cases "final_value sz (h ! q)")
      case (Inl y)
      then show ?thesis using Some by simp
    next
      case (Inr r)
      have "x \<noteq> e"
      proof
        assume "x = e"
        then have "final_value sz (h ! q) = Inl err"
          using Some Cons.prems(2,3) by (simp add: final_value_Inl)
        then show False using Inr by simp
      qed
      then have mem: "e \<in> set xs" using Cons.prems(1) by auto
      show ?thesis
      proof (cases r)
        case None
        then show ?thesis
          using Inr Some Cons.IH [OF mem Cons.prems(2,3), of c off pool] by simp
      next
        case (Some v)
        have "unsupported (h[q := (h ! q) \<lparr> sym_value := v \<rparr>] ! p) err"
          using Cons.prems(3) by simp
        from Cons.IH [OF mem Cons.prems(2) this, of "Suc c" "off + sym_size sz"
            "fst (stringpool_add pool (sym_name (h ! q)))"]
        show ?thesis using Inr Some \<open>snd x = Some q\<close> by simp
      qed
    qed
  qed
qed

text \<open>
  C6, as the code has it. On a table whose slots all point to a symbol of the heap,
  \<open>sized_finalize\<close> ends the link exactly when some symbol of the table comes from an object with a section
  index that is at least \<open>SHN_LORESERVE\<close> and not \<open>SHN_ABS\<close>; the error is the one about
  an unsupported symbol section. \<open>SHN_COMMON\<close> is such an index: a symbol that is still
  COMMON ends the link.
\<close>

theorem sized_finalize_fatal_iff:
  assumes valid: "\<forall>e \<in> set (table st). \<exists>p. snd e = Some p \<and> p < length (heap st)"
  shows "((\<exists>err. sized_finalize sz st off pool = Inl err)
           = (\<exists>k p ob shnum. (k, Some p) \<in> set (table st)
                \<and> source (heap st ! p) = FROM_OBJECT ob shnum
                \<and> SHN_LORESERVE \<le> shnum \<and> shnum \<noteq> SHN_ABS))
       \<and> (\<forall>err. sized_finalize sz st off pool = Inl err
             \<longrightarrow> (\<exists>name shnum. err = Unsupported_Symbol_Section name shnum
                    \<and> SHN_LORESERVE \<le> shnum \<and> shnum \<noteq> SHN_ABS))
       \<and> (\<forall>k p. (k, Some p) \<in> set (table st) \<and> is_common (heap st ! p)
             \<longrightarrow> (\<exists>err. sized_finalize sz st off pool = Inl err))"
proof -
  have assms: "\<forall>e \<in> set (table st). snd e \<noteq> None"
    using valid by auto
  let ?run = "sized_finalize_loop sz (table st) (heap st) 0 (align_address off (sz div 8)) pool"
  let ?bad = "\<exists>k p ob shnum. (k, Some p) \<in> set (table st)
                \<and> source (heap st ! p) = FROM_OBJECT ob shnum
                \<and> SHN_LORESERVE \<le> shnum \<and> shnum \<noteq> SHN_ABS"
  have inl: "sized_finalize sz st off pool = Inl e \<longleftrightarrow> ?run = Inl e" for e
    by (auto simp: sized_finalize_def split: sum.splits)
  have fatal_bad: ?bad if "\<exists>err. sized_finalize sz st off pool = Inl err"
  proof -
    from that obtain e where "?run = Inl e" using inl by blast
    from sized_finalize_loop_fatal [OF assms this]
    obtain x p where x: "x \<in> set (table st)" "snd x = Some p"
      and u: "unsupported (heap st ! p) e"
      by blast
    have "(fst x, Some p) = x"
      using x(2) by (metis prod.collapse)
    then have "(fst x, Some p) \<in> set (table st)"
      using x(1) by simp
    moreover have "\<exists>ob shnum. source (heap st ! p) = FROM_OBJECT ob shnum
                \<and> SHN_LORESERVE \<le> shnum \<and> shnum \<noteq> SHN_ABS"
      using u unfolding unsupported_def by blast
    ultimately show ?thesis by blast
  qed
  have bad_fatal: "\<exists>err. sized_finalize sz st off pool = Inl err" if ?bad
  proof -
    from that obtain k p ob shnum where m: "(k, Some p) \<in> set (table st)"
      and u: "unsupported (heap st ! p) (Unsupported_Symbol_Section (sym_name (heap st ! p)) shnum)"
      unfolding unsupported_def by blast
    have "snd (k, Some p) = Some p" by simp
    from sized_finalize_loop_unsupported [OF m this u]
    show ?thesis using inl by blast
  qed
  have error: "\<exists>name shnum. err = Unsupported_Symbol_Section name shnum
                \<and> SHN_LORESERVE \<le> shnum \<and> shnum \<noteq> SHN_ABS"
    if "sized_finalize sz st off pool = Inl err" for err
  proof -
    from that have "?run = Inl err" using inl by blast
    from sized_finalize_loop_fatal [OF assms this]
    show ?thesis unfolding unsupported_def by blast
  qed
  have common: "\<exists>err. sized_finalize sz st off pool = Inl err"
    if "(k, Some p) \<in> set (table st) \<and> is_common (heap st ! p)" for k p
  proof -
    from that obtain ob where "source (heap st ! p) = FROM_OBJECT ob SHN_COMMON"
      by (auto simp: is_common_def split: source.splits)
    moreover have "SHN_LORESERVE \<le> SHN_COMMON" "SHN_COMMON \<noteq> SHN_ABS"
      by (simp_all add: shn_defs)
    ultimately have ?bad using that by blast
    then show ?thesis by (rule bad_fatal)
  qed
  show ?thesis
    using fatal_bad bad_fatal error common by blast
qed

theorem sized_finalize_fatal_iff_witness:
  "(\<exists>err. sized_finalize 32 st_buf 0 [] = Inl err)
   \<and> \<not> (\<exists>err. sized_finalize 32 st_foo 0 [] = Inl err)"
proof -
  have buf: "\<forall>e \<in> set (table st_buf). \<exists>p. snd e = Some p \<and> p < length (heap st_buf)"
    and foo: "\<forall>e \<in> set (table st_foo). \<exists>p. snd e = Some p \<and> p < length (heap st_foo)"
    by (simp_all add: st_buf_def st_foo_def)
  have "((1, 0), Some 0) \<in> set (table st_buf) \<and> is_common (heap st_buf ! 0)"
    by (simp add: st_buf_def is_common_def init_from_object_def init_fields_def esym_common_def
        shn_defs)
  with sized_finalize_fatal_iff [OF buf, of 32 0 "[]"]
  have "\<exists>err. sized_finalize 32 st_buf 0 [] = Inl err"
    by blast
  moreover have "\<not> (\<exists>k p ob shnum. (k, Some p) \<in> set (table st_foo)
                \<and> source (heap st_foo ! p) = FROM_OBJECT ob shnum
                \<and> SHN_LORESERVE \<le> shnum \<and> shnum \<noteq> SHN_ABS)"
    by (simp add: st_foo_def init_from_object_def init_fields_def esym_def_def shn_defs)
  with sized_finalize_fatal_iff [OF foo, of 32 0 "[]"]
  have "\<not> (\<exists>err. sized_finalize 32 st_foo 0 [] = Inl err)"
    by blast
  ultimately show ?thesis by blast
qed

text \<open>
  The claim as stated fails: a symbol whose section index is \<open>SHN_COMMON\<close> when the final
  values are set ends the link.
\<close>

theorem sized_finalize_common_counterexample:
  "add_from_relobj 32 False Symbol_table_new object_a [esym_common 0] (''buf'' @ [CHR 0x00])
       = Inr (st_buf, [Some 0])
   \<and> source (heap st_buf ! 0) = FROM_OBJECT object_a SHN_COMMON
   \<and> sized_finalize 32 st_buf 0 [] = Inl (Unsupported_Symbol_Section ''buf'' SHN_COMMON)"
  using st_buf_ingested
  by (simp add: finalize_defs st_buf_def esym_common_def object_a_def)

subsection \<open>Setting the final values twice\<close>

lemma sized_finalize_loop_pool:
  "sized_finalize_loop sz t h c off pool = Inr (h', c', off', pool') \<Longrightarrow> set pool \<subseteq> set pool'"
proof (induction t arbitrary: h c off pool)
  case Nil
  then show ?case by simp
next
  case (Cons e es)
  show ?case
  proof (cases "snd e")
    case None
    then show ?thesis using Cons.prems by simp
  next
    case (Some p)
    show ?thesis
    proof (cases "final_value sz (h ! p)")
      case (Inl x)
      then show ?thesis using Some Cons.prems by simp
    next
      case (Inr r)
      show ?thesis
      proof (cases r)
        case None
        then show ?thesis using Inr Some Cons.prems Cons.IH [of h c off pool] by simp
      next
        case (Some v)
        then have "sized_finalize_loop sz es (h[p := (h ! p) \<lparr> sym_value := v \<rparr>]) (Suc c)
              (off + sym_size sz) (fst (stringpool_add pool (sym_name (h ! p))))
              = Inr (h', c', off', pool')"
          using Inr \<open>snd e = Some p\<close> Cons.prems by simp
        from Cons.IH [OF this] show ?thesis by (simp add: set_stringpool_add)
      qed
    qed
  qed
qed

lemma final_value_skip_source:
  "source s' = source s \<Longrightarrow> final_value sz s = Inr None \<Longrightarrow> final_value sz s' = Inr None"
  by (auto simp: final_value_def split: source.splits option.splits if_splits)

lemma final_value_Some_source:
  "source s' = source s \<Longrightarrow> final_value sz s = Inr (Some v)
     \<Longrightarrow> \<exists>v'. final_value sz s' = Inr (Some v')"
  by (auto simp: final_value_def split: source.splits option.splits if_splits)

lemma sized_finalize_loop_sources:
  "sized_finalize_loop sz t h c off pool = Inr (h', c', off', pool')
     \<Longrightarrow> length h' = length h
       \<and> (\<forall>q. source (h' ! q) = source (h ! q) \<and> sym_name (h' ! q) = sym_name (h ! q))"
proof (induction t arbitrary: h c off pool)
  case Nil
  then show ?case by simp
next
  case (Cons e es)
  show ?case
  proof (cases "snd e")
    case None
    then show ?thesis using Cons.prems by simp
  next
    case (Some p)
    show ?thesis
    proof (cases "final_value sz (h ! p)")
      case (Inl x)
      then show ?thesis using Some Cons.prems by simp
    next
      case (Inr r)
      show ?thesis
      proof (cases r)
        case None
        then show ?thesis using Inr Some Cons.prems Cons.IH [of h c off pool] by simp
      next
        case (Some v)
        then have "sized_finalize_loop sz es (h[p := (h ! p) \<lparr> sym_value := v \<rparr>]) (Suc c)
              (off + sym_size sz) (fst (stringpool_add pool (sym_name (h ! p))))
              = Inr (h', c', off', pool')"
          using Inr \<open>snd e = Some p\<close> Cons.prems by simp
        from Cons.IH [OF this] show ?thesis by simp
      qed
    qed
  qed
qed

lemma sized_finalize_loop_again:
  assumes "sized_finalize_loop sz t h c off pool = Inr (h', c', off', pool')"
    and "\<forall>q. source (g ! q) = source (h ! q) \<and> sym_name (g ! q) = sym_name (h ! q)"
  shows "\<exists>g' pool2. sized_finalize_loop sz t g c off poolx = Inr (g', c', off', pool2)
           \<and> (set pool' \<subseteq> set poolx \<longrightarrow> pool2 = poolx)"
  using assms
proof (induction t arbitrary: h g c off pool poolx)
  case Nil
  then show ?case by simp
next
  case (Cons e es)
  show ?case
  proof (cases "snd e")
    case None
    then show ?thesis using Cons.prems by simp
  next
    case (Some p)
    have src: "source (g ! p) = source (h ! p)" using Cons.prems(2) by simp
    show ?thesis
    proof (cases "final_value sz (h ! p)")
      case (Inl x)
      then show ?thesis using Some Cons.prems by simp
    next
      case (Inr r)
      show ?thesis
      proof (cases r)
        case None
        then have run: "sized_finalize_loop sz es h c off pool = Inr (h', c', off', pool')"
          using Inr Some Cons.prems(1) by simp
        have "final_value sz (g ! p) = Inr None"
          using final_value_skip_source [OF src] Inr None by simp
        then show ?thesis
          using Some Cons.IH [OF run Cons.prems(2), of poolx] by simp
      next
        case (Some v)
        then have run: "sized_finalize_loop sz es (h[p := (h ! p) \<lparr> sym_value := v \<rparr>]) (Suc c)
              (off + sym_size sz) (fst (stringpool_add pool (sym_name (h ! p))))
              = Inr (h', c', off', pool')"
          using Inr \<open>snd e = Some p\<close> Cons.prems(1) by simp
        obtain v' where v': "final_value sz (g ! p) = Inr (Some v')"
          using final_value_Some_source [OF src] Inr Some by blast
        have same: "\<forall>q. source (g[p := (g ! p) \<lparr> sym_value := v' \<rparr>] ! q)
                 = source (h[p := (h ! p) \<lparr> sym_value := v \<rparr>] ! q)
             \<and> sym_name (g[p := (g ! p) \<lparr> sym_value := v' \<rparr>] ! q)
                 = sym_name (h[p := (h ! p) \<lparr> sym_value := v \<rparr>] ! q)"
          using Cons.prems(2) by simp
        let ?poolx = "fst (stringpool_add poolx (sym_name (g ! p)))"
        from Cons.IH [OF run same, of ?poolx]
        obtain g' pool2 where
          again: "sized_finalize_loop sz es (g[p := (g ! p) \<lparr> sym_value := v' \<rparr>]) (Suc c)
              (off + sym_size sz) ?poolx = Inr (g', c', off', pool2)"
          and keep: "set pool' \<subseteq> set ?poolx \<longrightarrow> pool2 = ?poolx"
          by blast
        have "pool2 = poolx" if sub: "set pool' \<subseteq> set poolx"
        proof -
          have "sym_name (h ! p) \<in> set pool'"
            using sized_finalize_loop_pool [OF run] by (auto simp: set_stringpool_add)
          then have "sym_name (g ! p) \<in> set poolx"
            using Cons.prems(2) sub by auto
          then have "?poolx = poolx"
            by (rule stringpool_add_present)
          then show ?thesis using keep sub by simp
        qed
        then show ?thesis
          using v' \<open>snd e = Some p\<close> again by simp
      qed
    qed
  qed
qed

lemma sized_finalize_loop_fixed:
  assumes "sized_finalize_loop sz t h c off pool = Inr (h', c', off', pool')"
    and "\<forall>e \<in> set t. \<forall>p. snd e = Some p \<longrightarrow> final_value sz (h ! p) = Inr None
            \<or> final_value sz (h ! p) = Inr (Some (sym_value (h ! p)))"
  shows "h' = h"
  using assms
proof (induction t arbitrary: c off pool)
  case Nil
  then show ?case by simp
next
  case (Cons e es)
  show ?case
  proof (cases "snd e")
    case None
    then show ?thesis using Cons.prems by simp
  next
    case (Some p)
    then consider "final_value sz (h ! p) = Inr None"
      | "final_value sz (h ! p) = Inr (Some (sym_value (h ! p)))"
      using Cons.prems(2) by auto
    then show ?thesis
    proof cases
      case 1
      then show ?thesis using Some Cons.prems Cons.IH [of c off pool] by simp
    next
      case 2
      have "h[p := (h ! p) \<lparr> sym_value := sym_value (h ! p) \<rparr>] = h"
        by simp
      then show ?thesis
        using 2 Some Cons.prems
          Cons.IH [of "Suc c" "off + sym_size sz" "fst (stringpool_add pool (sym_name (h ! p)))"]
        by simp
    qed
  qed
qed

text \<open>
  C7, as the code has it. The pointers of the hash table are symbols of the heap. After
  \<open>sized_finalize\<close> has returned, a second run from the
  same offset returns the same offset and sets the same \<open>output_count\<close> and
  \<open>offset\<close>, and with an output pool that holds the names of the first run (the pool
  that the first run left, say) it returns the pool as it was. Each run computes a final
  value from the value it finds, so the values stay as they are only where that
  computation maps every value of the table to itself (or passes the symbol over).
\<close>

theorem sized_finalize_again:
  assumes "sized_finalize sz st off pool = Inr (st1, off1, pool1)"
    and "\<forall>e \<in> set (table st). \<forall>p. snd e = Some p \<longrightarrow> p < length (heap st)"
  shows "\<exists>st2 pool2. sized_finalize sz st1 off poolx = Inr (st2, off1, pool2)
           \<and> (set pool1 \<subseteq> set poolx \<longrightarrow> pool2 = poolx)
           \<and> output_count st2 = output_count st1 \<and> offset st2 = offset st1
           \<and> table st2 = table st1
           \<and> ((\<forall>k p. (k, Some p) \<in> set (table st1) \<longrightarrow>
                   final_value sz (heap st1 ! p) = Inr None
                   \<or> final_value sz (heap st1 ! p) = Inr (Some (sym_value (heap st1 ! p))))
                \<longrightarrow> heap st2 = heap st1)"
proof -
  let ?off = "align_address off (sz div 8)"
  from assms(1) obtain h1 c1 where
    run: "sized_finalize_loop sz (table st) (heap st) 0 ?off pool = Inr (h1, c1, off1, pool1)"
    and st1: "st1 = st \<lparr> offset := ?off, output_count := c1, heap := h1 \<rparr>"
    by (auto simp: sized_finalize_def split: sum.splits)
  have "\<forall>q. source (h1 ! q) = source (heap st ! q) \<and> sym_name (h1 ! q) = sym_name (heap st ! q)"
    using sized_finalize_loop_sources [OF run] by simp
  from sized_finalize_loop_again [OF run this, of poolx]
  obtain h2 pool2 where
    again: "sized_finalize_loop sz (table st) h1 0 ?off poolx = Inr (h2, c1, off1, pool2)"
    and keep: "set pool1 \<subseteq> set poolx \<longrightarrow> pool2 = poolx"
    by blast
  let ?st2 = "st1 \<lparr> offset := ?off, output_count := c1, heap := h2 \<rparr>"
  have r: "sized_finalize sz st1 off poolx = Inr (?st2, off1, pool2)"
    using again by (simp add: sized_finalize_def st1)
  have fixed: "h2 = h1"
    if "\<forall>k p. (k, Some p) \<in> set (table st1) \<longrightarrow>
                   final_value sz (heap st1 ! p) = Inr None
                   \<or> final_value sz (heap st1 ! p) = Inr (Some (sym_value (heap st1 ! p)))"
  proof (rule sized_finalize_loop_fixed [OF again])
    show "\<forall>e \<in> set (table st). \<forall>p. snd e = Some p \<longrightarrow> final_value sz (h1 ! p) = Inr None
            \<or> final_value sz (h1 ! p) = Inr (Some (sym_value (h1 ! p)))"
    proof (intro ballI allI impI)
      fix e p assume "e \<in> set (table st)" "snd e = Some p"
      then have "(fst e, Some p) \<in> set (table st1)"
        by (simp add: st1) (metis prod.collapse)
      with that show "final_value sz (h1 ! p) = Inr None
            \<or> final_value sz (h1 ! p) = Inr (Some (sym_value (h1 ! p)))"
        by (simp add: st1 del: split_paired_All)
    qed
  qed
  show ?thesis
    using r keep fixed by (intro exI [of _ ?st2] exI [of _ pool2]) (simp add: st1)
qed

theorem sized_finalize_again_witness:
  "sized_finalize 32 st_buf_constant 0 []
       = Inr (st_buf_constant \<lparr> output_count := 1 \<rparr>, 16, [''buf''])
   \<and> (\<exists>st2. sized_finalize 32 (st_buf_constant \<lparr> output_count := 1 \<rparr>) 0 [''buf'']
               = Inr (st2, 16, [''buf''])
           \<and> output_count st2 = 1 \<and> heap st2 = heap st_buf_constant)"
proof -
  have first: "sized_finalize 32 st_buf_constant 0 []
       = Inr (st_buf_constant \<lparr> output_count := 1 \<rparr>, 16, [''buf''])"
    by (simp add: finalize_defs st_buf_constant_def)
  have "\<forall>k p. (k, Some p) \<in> set (table (st_buf_constant \<lparr> output_count := 1 \<rparr>)) \<longrightarrow>
          final_value 32 (heap (st_buf_constant \<lparr> output_count := 1 \<rparr>) ! p) = Inr None
          \<or> final_value 32 (heap (st_buf_constant \<lparr> output_count := 1 \<rparr>) ! p)
              = Inr (Some (sym_value (heap (st_buf_constant \<lparr> output_count := 1 \<rparr>) ! p)))"
    by (simp add: st_buf_constant_def final_value_def init_constant_def init_fields_def)
  moreover have "\<forall>e \<in> set (table st_buf_constant). \<forall>p. snd e = Some p
      \<longrightarrow> p < length (heap st_buf_constant)"
    by (simp add: st_buf_constant_def)
  ultimately show ?thesis
    using sized_finalize_again [OF first, of "[''buf'']"] first by auto
qed

text \<open>
  The claim as stated fails: the second run adds the address of the output section and
  the offset in it once more to the value of \<open>foo\<close>, whether it is given the output pool
  that the first run left or the one that the first run was given.
\<close>

theorem sized_finalize_twice_counterexample:
  "sized_finalize 32 st_foo 0 [] = Inr (st_foo_final 4116, 16, [''foo''])
   \<and> sized_finalize 32 (st_foo_final 4116) 0 [''foo''] = Inr (st_foo_final 8228, 16, [''foo''])
   \<and> sized_finalize 32 (st_foo_final 4116) 0 [] = Inr (st_foo_final 8228, 16, [''foo''])
   \<and> sym_value (heap (st_foo_final 4116) ! 0) = 4116
   \<and> sym_value (heap (st_foo_final 8228) ! 0) = 8228"
  using st_foo_finalized st_foo_finalized_again
  by (simp add: finalize_defs st_foo_final_def esym_def_def object_a_def)


subsection \<open>Default versions and forwarders\<close>

lemmas resolve_defs = resolve_def resolve_action_def symbol_class_def esym_class_def
  symbol_is_dynamic_def merge_visibility_def override_def resolve_symbol_def make_forwarder_def

lemma versions_first:
  "add_from_object 32 False (st_v0 \<lparr> namepool := [''foo'', ''V1''] \<rparr>) object_a ''foo'' 1
       (Some ''V1'') 2 True (esym_weak_def 0) = Inr (st_v1, Some 0)"
  by (simp add: ingest_defs st_v0_def st_v1_def object_a_def target_le_def esym_weak_def_def)

lemma versions_second:
  "add_from_object 32 False (st_v1 \<lparr> namepool := [''foo'', ''V1'', ''V2''] \<rparr>) object_a ''foo'' 1
       (Some ''V2'') 3 False (esym_undef 8) = Inr (st_v2, Some 1)"
  by (simp add: ingest_defs st_v1_def st_v2_def object_a_def target_le_def esym_weak_def_def
      esym_undef_def)

lemma versions_third:
  "add_from_object 32 False st_v2 object_a ''foo'' 1
       (Some ''V2'') 3 True (esym_weak_def 15) = Inr (st_v3, Some 1)"
  by (simp add: ingest_defs resolve_defs st_v2_def st_v3_def object_a_def target_le_def
      esym_weak_def_def esym_undef_def)

lemma versions_relobj_first:
  "add_from_relobj_sym 32 False object_a versions_strtab st_v0 i (esym_weak_def 0)
     = Inr (st_v1, Some 0)"
  by (simp add: ingest_defs versions_strtab_def st_v0_def st_v1_def object_a_def target_le_def
      esym_weak_def_def)

lemma versions_relobj_second:
  "add_from_relobj_sym 32 False object_a versions_strtab st_v1 i (esym_undef 8)
     = Inr (st_v2, Some 1)"
  by (simp add: ingest_defs versions_strtab_def st_v1_def st_v2_def object_a_def target_le_def
      esym_weak_def_def esym_undef_def)

lemma versions_relobj_third:
  "add_from_relobj_sym 32 False object_a versions_strtab st_v2 i (esym_weak_def 15)
     = Inr (st_v3, Some 1)"
  by (simp add: ingest_defs resolve_defs versions_strtab_def st_v2_def st_v3_def object_a_def
      target_le_def esym_weak_def_def esym_undef_def)

lemma table_set_Cons:
  "table_set (e # t) k v = (if fst e = k then (k, v) else e) # table_set t k v"
  by (simp add: table_set_def)

lemma table_set_Nil: "table_set [] k v = []"
  by (simp add: table_set_def)

lemma map_of_table_set:
  "map_of (table_set t k v) k' =
     (if k' = k then (if map_of t k = None then None else Some v) else map_of t k')"
proof (induction t)
  case Nil
  then show ?case by (simp add: table_set_Nil)
next
  case (Cons e t)
  obtain a b where e: "e = (a, b)" by (cases e)
  show ?case
    unfolding table_set_Cons e using Cons.IH by (auto split: if_splits)
qed

lemma table_value_set:
  "table_value (table_set t k v) k' =
     (if k' = k \<and> map_of t k \<noteq> None then v else table_value t k')"
  unfolding table_value_def map_of_table_set by (simp split: option.splits)

lemma map_of_table_insert:
  "map_of (fst (table_insert t k)) k' =
     (if k' = k \<and> map_of t k = None then Some None else map_of t k')"
  by (simp add: table_insert_def map_add_def split: option.splits)

lemma note_undefined_common_table [simp]:
  "table (note_undefined_common st ret wu wc) = table st"
  by (simp add: note_undefined_common_def Let_def)

lemma make_forwarder_table: "make_forwarder st from to = Inr st' \<Longrightarrow> table st' = table st"
  by (auto simp: make_forwarder_def split: if_splits)

text \<open>
  What the code does keep: right after a symbol was added as the default version, the
  slot of the name with the version and the slot of the name without version hold the
  symbol returned.
\<close>

lemma add_from_object_default_slots:
  assumes "add_from_object sz big_endian st object name name_key version version_key True esym
             = Inr (st', Some ret)"
  shows "table_value (table st') (name_key, version_key) = Some ret
       \<and> table_value (table st') (name_key, 0) = Some ret"
proof -
  define ins where "ins = table_insert (table st) (name_key, version_key)"
  define insdef where "insdef = table_insert (fst ins) (name_key, 0)"
  have k: "map_of (fst insdef) (name_key, version_key) \<noteq> None"
    and k0: "map_of (fst insdef) (name_key, 0) \<noteq> None"
    by (auto simp: insdef_def ins_def map_of_table_insert)
  note defs = add_from_object_def ins_def [symmetric] insdef_def [symmetric]
  show ?thesis
    using assms k k0 unfolding defs Let_def
    by (auto simp: table_value_set map_of_table_set split: if_splits option.splits sum.splits
        dest!: make_forwarder_table)
qed


text \<open>
  C1, at an input where the code departs from it. An object defines \<open>foo@@V1\<close>, refers
  to \<open>foo@V2\<close> and defines \<open>foo@@V2\<close>. The third symbol finds separate records under
  (\<open>foo\<close>, \<open>V2\<close>) and (\<open>foo\<close>, no version): the latter is made a forwarder and its
  slot repointed, but the slot of (\<open>foo\<close>, \<open>V1\<close>), which shares that record since the
  first symbol, is left as it is. From then on \<open>lookup\<close> of \<open>foo\<close> without version and
  with the default version \<open>V1\<close> return different symbols.
\<close>

theorem default_version_lookup_differs:
  "add_from_relobj 32 False Symbol_table_new object_a
       [esym_weak_def 0, esym_undef 8, esym_weak_def 15] versions_strtab
     = Inr (st_v3, [Some 0, Some 1, Some 1])
   \<and> lookup st_v3 ''foo'' None = Some 1
   \<and> lookup st_v3 ''foo'' (Some ''V1'') = Some 0
   \<and> lookup st_v3 ''foo'' (Some ''V2'') = Some 1"
proof -
  have "(if get_size Symbol_table_new = 0 then Symbol_table_new \<lparr> elf_size := 32 \<rparr>
         else Symbol_table_new) = st_v0"
    by (simp add: Symbol_table_new_def st_v0_def get_size_def)
  moreover have "get_size st_v0 = 32" "t_size (obj_target object_a) = 32"
    by (simp_all add: get_size_def st_v0_def object_a_def target_le_def)
  ultimately have "add_from_relobj 32 False Symbol_table_new object_a
       [esym_weak_def 0, esym_undef 8, esym_weak_def 15] versions_strtab
     = Inr (st_v3, [Some 0, Some 1, Some 1])"
    unfolding add_from_relobj_def Let_def
    by (simp add: versions_relobj_first versions_relobj_second versions_relobj_third)
  moreover have "lookup st_v3 ''foo'' None = Some 1"
    "lookup st_v3 ''foo'' (Some ''V1'') = Some 0"
    "lookup st_v3 ''foo'' (Some ''V2'') = Some 1"
    by (simp_all add: lookup_def table_value_def st_v3_def)
  ultimately show ?thesis by simp
qed

text \<open>
  C2, at an input where the code departs from it. The same three symbols, given to
  \<open>add_from_object\<close> one after the other: in the end the slot of (\<open>foo\<close>, \<open>V1\<close>)
  holds the record that \<open>make_forwarder\<close> has marked as a forwarder.
\<close>

theorem forwarder_stays_in_table:
  "add_from_object 32 False (st_v0 \<lparr> namepool := [''foo'', ''V1''] \<rparr>) object_a ''foo'' 1
       (Some ''V1'') 2 True (esym_weak_def 0) = Inr (st_v1, Some 0)
   \<and> add_from_object 32 False (st_v1 \<lparr> namepool := [''foo'', ''V1'', ''V2''] \<rparr>) object_a ''foo'' 1
       (Some ''V2'') 3 False (esym_undef 8) = Inr (st_v2, Some 1)
   \<and> add_from_object 32 False st_v2 object_a ''foo'' 1
       (Some ''V2'') 3 True (esym_weak_def 15) = Inr (st_v3, Some 1)
   \<and> table_value (table st_v3) (1, 2) = Some 0
   \<and> is_forwarder (heap st_v3 ! 0)
   \<and> resolve_forwards st_v3 0 = Inr 1"
  using versions_first versions_second versions_third
  by (simp add: table_value_def resolve_forwards_def st_v3_def)

subsection \<open>The commons list\<close>

lemma table_symbols_insert: "table_symbols (fst (table_insert t k)) = table_symbols t"
  by (auto simp: table_symbols_def table_insert_def split: option.splits)

lemma table_symbols_set:
  "table_symbols (table_set t k (Some p)) \<subseteq> insert p (table_symbols t)"
  by (auto simp: table_symbols_def table_set_def split: if_splits)

lemma table_symbols_erase: "table_symbols (table_erase t k) \<subseteq> table_symbols t"
  by (auto simp: table_symbols_def table_erase_def)

lemma table_value_symbols: "table_value t k = Some p \<Longrightarrow> p \<in> table_symbols t"
proof -
  assume "table_value t k = Some p"
  then have "map_of t k = Some (Some p)"
    by (auto simp: table_value_def split: option.splits)
  then have "(k, Some p) \<in> set t"
    by (rule map_of_SomeD)
  then show ?thesis
    unfolding table_symbols_def by blast
qed

lemma note_undefined_common_fields [simp]:
  "table (note_undefined_common st ret wu wc) = table st"
  "heap (note_undefined_common st ret wu wc) = heap st"
  "set (commons (note_undefined_common st ret wu wc))
     = (if \<not> wc \<and> is_common (heap st ! ret) then insert ret (set (commons st))
        else set (commons st))"
  by (simp_all add: note_undefined_common_def Let_def)

lemma commons_inv_step:
  assumes inv: "commons_inv st"
    and tab: "table_symbols (table s) \<subseteq> insert ret (table_symbols (table st))"
    and com: "commons s = commons st"
    and len: "length (heap st) \<le> length (heap s)" "ret < length (heap s)"
    and frame: "\<forall>p \<in> table_symbols (table st). p \<noteq> ret
                  \<longrightarrow> is_common (heap s ! p) = is_common (heap st ! p)"
    and was: "wc \<and> is_common (heap s ! ret) \<longrightarrow> ret \<in> set (commons st)"
  shows "commons_inv (note_undefined_common s ret wu wc)"
  unfolding commons_inv_def
proof
  fix p assume "p \<in> table_symbols (table (note_undefined_common s ret wu wc))"
  then have p: "p = ret \<or> p \<in> table_symbols (table st)"
    using tab by auto
  show "p < length (heap (note_undefined_common s ret wu wc))
       \<and> (is_common (heap (note_undefined_common s ret wu wc) ! p)
            \<longrightarrow> p \<in> set (commons (note_undefined_common s ret wu wc)))"
  proof (cases "p = ret")
    case True
    then show ?thesis using len(2) was com by auto
  next
    case False
    with p have m: "p \<in> table_symbols (table st)" by simp
    with inv have "p < length (heap st)"
      and "is_common (heap st ! p) \<longrightarrow> p \<in> set (commons st)"
      unfolding commons_inv_def by auto
    then show ?thesis using False m frame len(1) com by auto
  qed
qed

lemma is_common_forwarder [simp]: "is_common (s \<lparr> is_forwarder := b \<rparr>) = is_common s"
  by (simp add: is_common_def)

lemma is_common_forwarded [simp]:
  "is_common (h[q := (h ! q) \<lparr> is_forwarder := b \<rparr>] ! p) = is_common (h ! p)"
  by (cases "q < length h") (auto simp: nth_list_update list_update_beyond)

lemma add_from_object_commons_inv:
  assumes inv: "commons_inv st"
    and run: "add_from_object sz big_endian st object name name_key version version_key def esym
                = Inr (st', r)"
  shows "commons_inv st'"
proof -
  define ins where "ins = table_insert (table st) (name_key, version_key)"
  define insdef where
    "insdef = (if def then table_insert (fst ins) (name_key, 0) else (fst ins, False))"
  define t where "t = fst insdef"
  have ts: "table_symbols t = table_symbols (table st)"
    by (simp add: t_def insdef_def ins_def table_symbols_insert)
  have valid: "p < length (heap st)" if "p \<in> table_symbols (table st)" for p
    using inv that unfolding commons_inv_def by auto
  have known: "p \<in> set (commons st)"
    if "p \<in> table_symbols (table st)" "is_common (heap st ! p)" for p
    using inv that unfolding commons_inv_def by auto
  note defs = add_from_object_def ins_def [symmetric] insdef_def [symmetric] t_def [symmetric]
  show ?thesis
  proof (cases "snd ins")
    case False
    then obtain ret where ret: "table_value t (name_key, version_key) = Some ret"
      using run unfolding defs Let_def by (auto split: option.splits)
    then have rin: "ret \<in> table_symbols (table st)"
      using table_value_symbols ts by blast
    obtain r1 where r1: "resolve (heap st ! ret) esym object = Inr r1"
      using run False ret unfolding defs Let_def by (auto split: sum.splits)
    let ?wu = "is_undefined (heap st ! ret)" and ?wc = "is_common (heap st ! ret)"
    let ?st1 = "st \<lparr> table := t, heap := (heap st)[ret := r1] \<rparr>"
    have step1: "commons_inv (note_undefined_common s ret ?wu ?wc)"
      if "table_symbols (table s) \<subseteq> insert ret (table_symbols (table st))"
        and "commons s = commons st" and "length (heap s) = length (heap st)"
        and "\<forall>p. p \<noteq> ret \<longrightarrow> is_common (heap s ! p) = is_common (heap st ! p)" for s
      using inv that valid [OF rin] known [OF rin]
      by (intro commons_inv_step) auto
    consider (nodef) "\<not> def" | (new0) "def" "snd insdef"
      | (same) "def" "\<not> snd insdef" "table_value t (name_key, 0) = Some ret"
      | (both) "def" "\<not> snd insdef" "table_value t (name_key, 0) \<noteq> Some ret"
      by blast
    then show ?thesis
    proof cases
      case nodef
      then have "st' = note_undefined_common ?st1 ret ?wu ?wc"
        using run False ret r1 unfolding defs Let_def by auto
      then show ?thesis
        using step1 [of ?st1] ts by (auto simp: nth_list_update)
    next
      case new0
      then have "st' = note_undefined_common
                    (?st1 \<lparr> table := table_set t (name_key, 0) (Some ret) \<rparr>) ret ?wu ?wc"
        using run False ret r1 unfolding defs Let_def by auto
      then show ?thesis
        using step1 [of "?st1 \<lparr> table := table_set t (name_key, 0) (Some ret) \<rparr>"]
          table_symbols_set [of t "(name_key, 0)" ret] ts
        by (auto simp: nth_list_update)
    next
      case same
      then have "st' = note_undefined_common ?st1 ret ?wu ?wc"
        using run False ret r1 unfolding defs Let_def by auto
      then show ?thesis
        using step1 [of ?st1] ts by (auto simp: nth_list_update)
    next
      case both
      then obtain sym2 where sym2: "table_value t (name_key, 0) = Some sym2"
        using run False ret r1 unfolding defs Let_def by (auto split: option.splits)
      obtain r2 where r2: "resolve_symbol r1 (heap ?st1 ! sym2) = Inr r2"
        using run False ret r1 both sym2 unfolding defs Let_def by (auto split: sum.splits)
      obtain st2 where st2: "make_forwarder (?st1 \<lparr> heap := (heap ?st1)[ret := r2] \<rparr>) sym2 ret
                               = Inr st2"
        using run False ret r1 both sym2 r2 unfolding defs Let_def by (auto split: sum.splits)
      have st': "st' = note_undefined_common
                    (st2 \<lparr> table := table_set t (name_key, 0) (Some ret) \<rparr>) ret ?wu ?wc"
        using run False ret r1 both sym2 r2 st2 unfolding defs Let_def by auto
      have ne: "sym2 \<noteq> ret" using both sym2 by auto
      have h2: "heap st2 = ((heap st)[ret := r2])
                  [sym2 := (((heap st)[ret := r2]) ! sym2) \<lparr> is_forwarder := True \<rparr>]"
        and c2: "commons st2 = commons st"
        using st2 by (auto simp: make_forwarder_def split: if_splits)
      have "\<forall>p. p \<noteq> ret \<longrightarrow> is_common (heap st2 ! p) = is_common (heap st ! p)"
        unfolding h2 by simp
      then show ?thesis
        unfolding st'
        using step1 [of "st2 \<lparr> table := table_set t (name_key, 0) (Some ret) \<rparr>"]
          table_symbols_set [of t "(name_key, 0)" ret] ts c2 h2
        by auto
    qed
  next
    case True
    show ?thesis
    proof (cases "def \<and> \<not> snd insdef")
      case shared: True
      then obtain ret where ret: "table_value t (name_key, 0) = Some ret"
        using run \<open>snd ins\<close> unfolding defs Let_def by (auto split: option.splits)
      then have rin: "ret \<in> table_symbols (table st)"
        using table_value_symbols ts by blast
      obtain r1 where r1: "resolve (heap st ! ret) esym object = Inr r1"
        using run \<open>snd ins\<close> shared ret unfolding defs Let_def by (auto split: sum.splits)
      let ?s = "st \<lparr> table := table_set t (name_key, version_key) (Some ret),
                     heap := (heap st)[ret := r1] \<rparr>"
      have "st' = note_undefined_common ?s ret False False"
        using run \<open>snd ins\<close> shared ret r1 unfolding defs Let_def by auto
      moreover have "commons_inv (note_undefined_common ?s ret False False)"
        using inv valid [OF rin] table_symbols_set [of t "(name_key, version_key)" ret] ts
        by (intro commons_inv_step) (auto simp: nth_list_update)
      ultimately show ?thesis by simp
    next
      case fresh: False
      show ?thesis
      proof (cases "t_has_make_symbol (obj_target object) \<and> t_make_symbol_null (obj_target object)")
        case True
        then have "table_symbols (table st') \<subseteq> table_symbols (table st)"
          and "heap st' = heap st" and "commons st' = commons st"
          using run \<open>snd ins\<close> fresh ts
            table_symbols_erase [of t "(name_key, version_key)"]
            table_symbols_erase [of "table_erase t (name_key, 0)" "(name_key, version_key)"]
            table_symbols_erase [of t "(name_key, 0)"]
          unfolding defs Let_def by (auto split: if_splits)
        then show ?thesis
          using inv unfolding commons_inv_def by auto
      next
        case False
        let ?ret = "length (heap st)"
        let ?t1 = "table_set t (name_key, version_key) (Some ?ret)"
        let ?t2 = "(if def then table_set ?t1 (name_key, 0) (Some ?ret) else ?t1)"
        let ?s = "st \<lparr> table := ?t2,
                       heap := heap st @ [init_from_object name version object esym] \<rparr>"
        have "st' = note_undefined_common ?s ?ret False False"
          using run \<open>snd ins\<close> fresh False unfolding defs Let_def by (auto split: if_splits)
        moreover have "table_symbols ?t2 \<subseteq> insert ?ret (table_symbols (table st))"
          using table_symbols_set [of t "(name_key, version_key)" ?ret]
            table_symbols_set [of ?t1 "(name_key, 0)" ?ret] ts
          by auto
        then have "commons_inv (note_undefined_common ?s ?ret False False)"
          using inv valid
          by (intro commons_inv_step) (auto simp: nth_append)
        ultimately show ?thesis by simp
      qed
    qed
  qed
qed


lemma commons_inv_namepool [simp]: "commons_inv (st \<lparr> namepool := x \<rparr>) = commons_inv st"
  by (simp add: commons_inv_def)

lemma commons_inv_elf_size [simp]: "commons_inv (st \<lparr> elf_size := x \<rparr>) = commons_inv st"
  by (simp add: commons_inv_def)

lemma add_from_relobj_sym_commons_inv:
  assumes "commons_inv st"
    and "add_from_relobj_sym sz big_endian relobj sym_names st i esym = Inr (st', r)"
  shows "commons_inv st'"
proof (cases "strchr (c_string sym_names (st_name esym)) CHR ''@''")
  case None
  then show ?thesis
    using assms add_from_object_commons_inv [of "st \<lparr> namepool := x \<rparr>" for x]
    unfolding add_from_relobj_sym_def Let_def
    by (auto split: if_splits)
next
  case (Some n)
  then show ?thesis
    using assms add_from_object_commons_inv [of "st \<lparr> namepool := x \<rparr>" for x]
    unfolding add_from_relobj_sym_def Let_def
    by (auto split: if_splits)
qed

lemma add_from_relobj_loop_commons_inv:
  "commons_inv st
     \<Longrightarrow> add_from_relobj_loop sz big_endian relobj sym_names i syms st ptrs = Inr (st', ptrs')
     \<Longrightarrow> commons_inv st'"
proof (induction syms arbitrary: st i ptrs)
  case Nil
  then show ?case by simp
next
  case (Cons esym syms)
  from Cons.prems(2) obtain st1 r where
    one: "add_from_relobj_sym sz big_endian relobj sym_names st i esym = Inr (st1, r)"
    and rest: "add_from_relobj_loop sz big_endian relobj sym_names (Suc i) syms st1 (ptrs @ [r])
                 = Inr (st', ptrs')"
    by (auto split: sum.splits)
  from add_from_relobj_sym_commons_inv [OF Cons.prems(1) one]
  show ?case using Cons.IH rest by blast
qed

lemma add_from_relobj_commons_inv:
  "commons_inv st \<Longrightarrow> add_from_relobj sz big_endian st relobj syms sym_names = Inr (st', ptrs)
     \<Longrightarrow> commons_inv st'"
  unfolding add_from_relobj_def Let_def
  by (auto split: if_splits dest: add_from_relobj_loop_commons_inv [rotated])

lemma add_from_object_fst_commons_inv:
  assumes "commons_inv st"
    and "map_sum id fst
           (add_from_object sz big_endian st object name name_key version version_key def esym)
           = Inr st'"
  shows "commons_inv st'"
proof -
  from assms(2) obtain r where
    "add_from_object sz big_endian st object name name_key version version_key def esym
       = Inr (st', r)"
    by (cases "add_from_object sz big_endian st object name name_key version version_key def esym")
       auto
  from add_from_object_commons_inv [OF assms(1) this] show ?thesis .
qed

lemma add_from_dynobj_sym_commons_inv:
  assumes "commons_inv st"
    and "add_from_dynobj_sym sz big_endian dynobj sym_names versym version_map st i esym = Inr st'"
  shows "commons_inv st'"
  using assms add_from_object_fst_commons_inv [of "st \<lparr> namepool := x \<rparr>" for x]
  unfolding add_from_dynobj_sym_def Let_def
  by (auto split: if_splits option.splits)

lemma add_from_dynobj_loop_commons_inv:
  "commons_inv st
     \<Longrightarrow> add_from_dynobj_loop sz big_endian dynobj sym_names versym version_map i syms st = Inr st'
     \<Longrightarrow> commons_inv st'"
proof (induction syms arbitrary: st i)
  case Nil
  then show ?case by simp
next
  case (Cons esym syms)
  from Cons.prems(2) obtain st1 where
    one: "add_from_dynobj_sym sz big_endian dynobj sym_names versym version_map st i esym = Inr st1"
    and rest: "add_from_dynobj_loop sz big_endian dynobj sym_names versym version_map (Suc i) syms st1
                 = Inr st'"
    by (auto split: sum.splits)
  from add_from_dynobj_sym_commons_inv [OF Cons.prems(1) one]
  show ?case using Cons.IH rest by blast
qed

lemma add_from_dynobj_commons_inv:
  "commons_inv st
     \<Longrightarrow> add_from_dynobj sz big_endian st dynobj syms sym_names versym version_map = Inr st'
     \<Longrightarrow> commons_inv st'"
  unfolding add_from_dynobj_def Let_def
  by (auto split: if_splits dest: add_from_dynobj_loop_commons_inv [rotated])


lemma lookup_symbols: "lookup st name version = Some p \<Longrightarrow> p \<in> table_symbols (table st)"
  by (auto simp: lookup_def split: option.splits dest: table_value_symbols)

lemma define_special_old_shape:
  "define_special_old st oldsym name = Inr (st1, r, msgs)
     \<Longrightarrow> st1 = st \<and> (r = None \<or> r = Some oldsym)"
  by (auto simp: define_special_old_def split: source.splits if_splits)

lemma define_special_symbol_shape:
  assumes "define_special_symbol sz big_endian st target name only_if_ref = Inr (st1, r, msgs)"
  shows "commons st1 = commons st
       \<and> ((heap st1 = heap st
             \<and> table_symbols (table st1) = table_symbols (table st)
             \<and> (\<forall>s. r = Some s \<longrightarrow> s \<in> table_symbols (table st)))
          \<or> (heap st1 = heap st @ [Sized_symbol_new] \<and> r = Some (length (heap st))
             \<and> table_symbols (table st1) \<subseteq> insert (length (heap st)) (table_symbols (table st))))"
proof (cases only_if_ref)
  case True
  then show ?thesis
    using assms
    by (auto simp: define_special_symbol_def split: if_splits option.splits
        dest!: define_special_old_shape dest: lookup_symbols)
next
  case False
  define nk where "nk = stringpool_add (namepool st) name"
  define ins where "ins = table_insert (table st) (snd nk, 0)"
  define st0 where "st0 = st \<lparr> table := fst ins, namepool := fst nk \<rparr>"
  have ts: "table_symbols (fst ins) = table_symbols (table st)"
    by (simp add: ins_def table_symbols_insert)
  note defs = define_special_symbol_def nk_def [symmetric] ins_def [symmetric]
    st0_def [symmetric]
  show ?thesis
  proof (cases "snd ins")
    case old: False
    then obtain oldsym where o: "table_value (fst ins) (snd nk, 0) = Some oldsym"
      and d: "define_special_old st0 oldsym name = Inr (st1, r, msgs)"
      using assms False unfolding defs Let_def by (auto split: if_splits option.splits)
    from define_special_old_shape [OF d] table_value_symbols [OF o] ts
    show ?thesis by (auto simp: st0_def)
  next
    case True
    have es: "elf_size st = sz"
    proof (rule ccontr)
      assume "elf_size st \<noteq> sz"
      then have "define_special_symbol sz big_endian st target name only_if_ref = Inl Assert_Failed"
        by (simp add: define_special_symbol_def)
      with assms show False by simp
    qed
    have "define_special_symbol sz big_endian st target name only_if_ref =
        (if t_has_make_symbol target \<and> t_size target \<noteq> sz then Inl Assert_Failed
         else if t_has_make_symbol target \<and> t_big_endian target \<noteq> big_endian then
           Inl Assert_Failed
         else if t_has_make_symbol target \<and> t_make_symbol_null target then Inr (st0, None, [])
         else Inr (st0 \<lparr> table := table_set (fst ins) (snd nk, 0) (Some (length (heap st))),
                         heap := heap st @ [Sized_symbol_new] \<rparr>,
                   Some (length (heap st)), []))"
      using es False True unfolding defs Let_def by simp
    with assms have "Inr (st1, r, msgs) =
        (if t_has_make_symbol target \<and> t_size target \<noteq> sz then Inl Assert_Failed
         else if t_has_make_symbol target \<and> t_big_endian target \<noteq> big_endian then
           Inl Assert_Failed
         else if t_has_make_symbol target \<and> t_make_symbol_null target then Inr (st0, None, [])
         else Inr (st0 \<lparr> table := table_set (fst ins) (snd nk, 0) (Some (length (heap st))),
                         heap := heap st @ [Sized_symbol_new] \<rparr>,
                   Some (length (heap st)), []))"
      by simp
    then consider "st1 = st0" "r = None"
      | "st1 = st0 \<lparr> table := table_set (fst ins) (snd nk, 0) (Some (length (heap st))),
                      heap := heap st @ [Sized_symbol_new] \<rparr>" "r = Some (length (heap st))"
      by (auto split: if_splits)
    then show ?thesis
    proof cases
      case 1
      then show ?thesis using ts by (simp add: st0_def)
    next
      case 2
      then show ?thesis
        using ts table_symbols_set [of "fst ins" "(snd nk, 0)" "length (heap st)"]
        by (simp add: st0_def)
    qed
  qed
qed

lemma do_define_commons_inv:
  assumes inv: "commons_inv st" and nc: "\<not> is_common inited"
    and run: "do_define sz st target name only_if_ref inited = Inr (st', msgs)"
  shows "commons_inv st'"
proof -
  from run obtain st1 r where
    d: "define_special_symbol sz (t_big_endian target) st target name only_if_ref
          = Inr (st1, r, msgs)"
    and st': "st' = (case r of None \<Rightarrow> st1 | Some s \<Rightarrow> st1 \<lparr> heap := (heap st1)[s := inited] \<rparr>)"
    by (auto simp: do_define_def split: sum.splits option.splits)
  note shape = define_special_symbol_shape [OF d]
  have valid: "p < length (heap st)" if "p \<in> table_symbols (table st)" for p
    using inv that unfolding commons_inv_def by auto
  have known: "p \<in> set (commons st)"
    if "p \<in> table_symbols (table st)" "is_common (heap st ! p)" for p
    using inv that unfolding commons_inv_def by auto
  show ?thesis
    unfolding commons_inv_def
  proof
    fix p assume p: "p \<in> table_symbols (table st')"
    have tab: "table st' = table st1" and com: "commons st' = commons st"
      using shape by (auto simp: st' split: option.splits)
    from shape consider
      (same) "heap st1 = heap st" "table_symbols (table st1) = table_symbols (table st)"
        "\<forall>s. r = Some s \<longrightarrow> s \<in> table_symbols (table st)"
      | (new) "heap st1 = heap st @ [Sized_symbol_new]" "r = Some (length (heap st))"
        "table_symbols (table st1) \<subseteq> insert (length (heap st)) (table_symbols (table st))"
      by blast
    then show "p < length (heap st') \<and> (is_common (heap st' ! p) \<longrightarrow> p \<in> set (commons st'))"
    proof cases
      case same
      then have pin: "p \<in> table_symbols (table st)" using p tab by simp
      show ?thesis
      proof (cases r)
        case None
        then show ?thesis using same pin valid known com by (simp add: st')
      next
        case (Some s)
        then have "s < length (heap st)" using same valid by simp
        then show ?thesis
          using Some same pin valid [OF pin] known [OF pin] com nc
          by (cases "p = s") (simp_all add: st')
      qed
    next
      case new
      then have h: "heap st' = (heap st)  @ [inited]"
        by (simp add: st')
      show ?thesis
      proof (cases "p = length (heap st)")
        case True
        then show ?thesis using nc by (simp add: h)
      next
        case False
        then have pin: "p \<in> table_symbols (table st)" using p tab new by auto
        then show ?thesis
          using valid [OF pin] known [OF pin] com by (simp add: h nth_append)
      qed
    qed
  qed
qed

lemma init_not_common [simp]:
  "\<not> is_common (init_in_output_data name od val ssize type bind vis nv offset_is_from_end)"
  "\<not> is_common (init_in_output_segment name os val ssize type bind vis nv offset_base)"
  "\<not> is_common (init_constant name val ssize type bind vis nv)"
  by (simp_all add: is_common_def init_in_output_data_def init_in_output_segment_def
      init_constant_def init_fields_def)

lemma define_in_output_data_commons_inv:
  "commons_inv st
     \<Longrightarrow> define_in_output_data st target name od val ssize type bind vis nv
           offset_is_from_end only_if_ref = Inr (st', msgs)
     \<Longrightarrow> commons_inv st'"
  unfolding define_in_output_data_def do_define_in_output_data_def
  by (auto split: if_splits dest: do_define_commons_inv [rotated 2])

lemma define_in_output_segment_commons_inv:
  "commons_inv st
     \<Longrightarrow> define_in_output_segment st target name os val ssize type bind vis nv
           offset_base only_if_ref = Inr (st', msgs)
     \<Longrightarrow> commons_inv st'"
  unfolding define_in_output_segment_def do_define_in_output_segment_def
  by (auto split: if_splits dest: do_define_commons_inv [rotated 2])

lemma define_as_constant_commons_inv:
  "commons_inv st
     \<Longrightarrow> define_as_constant st target name val ssize type bind vis nv only_if_ref = Inr (st', msgs)
     \<Longrightarrow> commons_inv st'"
  unfolding define_as_constant_def do_define_as_constant_def
  by (auto split: if_splits dest: do_define_commons_inv [rotated 2])

lemma reachable_commons_inv: "reachable st \<Longrightarrow> commons_inv st"
proof (induction rule: reachable.induct)
  case reachable_new
  show ?case by (simp add: commons_inv_def table_symbols_def Symbol_table_new_def)
next
  case (reachable_relobj st sz big_endian relobj syms sym_names st' sympointers)
  then show ?case by (blast intro: add_from_relobj_commons_inv)
next
  case (reachable_dynobj st sz big_endian dynobj syms sym_names versym version_map st')
  then show ?case by (blast intro: add_from_dynobj_commons_inv)
next
  case (reachable_data st target name od val ssize type bind vis nv offset_is_from_end
      only_if_ref st' msgs)
  then show ?case by (blast intro: define_in_output_data_commons_inv)
next
  case (reachable_segment st target name os val ssize type bind vis nv offset_base
      only_if_ref st' msgs)
  then show ?case by (blast intro: define_in_output_segment_commons_inv)
next
  case (reachable_constant st target name val ssize type bind vis nv only_if_ref st' msgs)
  then show ?case by (blast intro: define_as_constant_commons_inv)
qed

text \<open>
  C8, as the code has it. In every symbol table that a link can build, a symbol that the
  hash table points to and that is COMMON is in the commons list. (The list is only ever
  appended to.)
\<close>

theorem commons_complete:
  assumes "reachable st" and "(k, Some p) \<in> set (table st)" and "is_common (heap st ! p)"
  shows "p \<in> set (commons st)"
  using reachable_commons_inv [OF assms(1)] assms(2,3)
  unfolding commons_inv_def table_symbols_def by blast


theorem commons_complete_witness:
  "reachable st_buf \<and> ((1, 0), Some 0) \<in> set (table st_buf) \<and> is_common (heap st_buf ! 0)
   \<and> 0 \<in> set (commons st_buf)"
proof -
  have r: "reachable st_buf"
    using reachable_new st_buf_ingested by (rule reachable_relobj)
  have t: "((1, 0), Some 0) \<in> set (table st_buf)"
    by (simp add: st_buf_def)
  have c: "is_common (heap st_buf ! 0)"
    by (simp add: st_buf_def is_common_def init_from_object_def init_fields_def esym_common_def
        shn_defs)
  from commons_complete [OF r t c] r t c show ?thesis by simp
qed

text \<open>
  The claim as stated fails: after the linker has defined the COMMON symbol \<open>buf\<close> as a
  constant, the commons list still holds the record, which is no longer COMMON.
\<close>

theorem commons_stale_counterexample:
  "add_from_relobj 32 False Symbol_table_new object_a [esym_common 0] (''buf'' @ [CHR 0x00])
       = Inr (st_buf, [Some 0])
   \<and> define_as_constant st_buf target_le ''buf'' 64 8 STT_OBJECT STB_GLOBAL STV_DEFAULT 0 False
       = Inr (st_buf_constant, [])
   \<and> commons st_buf_constant = [0]
   \<and> \<not> is_common (heap st_buf_constant ! 0)"
  using st_buf_ingested st_buf_defined
  by (simp add: st_buf_constant_def is_common_def init_constant_def init_fields_def)

text \<open>
  The list can hold a record twice: the record of \<open>buf\<close> is in the list when
  \<open>buf@@V1\<close> is seen for the first time, and is appended again.
\<close>

lemma commons_twice:
  "add_from_relobj 32 False st_buf object_a [esym_common 0] (''buf@@V1'' @ [CHR 0x00])
     = Inr (st_buf_twice, [Some 0])"
  by (simp add: ingest_defs resolve_defs st_buf_def st_buf_twice_def object_a_def target_le_def
      esym_common_def)

subsection \<open>Symbols with local binding\<close>




lemma note_undefined_common_namepool [simp]:
  "namepool (note_undefined_common st ret wu wc) = namepool st"
  by (simp add: note_undefined_common_def Let_def)















text \<open>
  The run does return for a slice of one symbol, local or not, whose name has no version
  and no entry yet, for a target without a symbol factory.
\<close>

lemma add_from_relobj_one_symbol:
  assumes sz: "get_size st = 0 \<or> get_size st = sz" "t_size (obj_target relobj) = sz"
    and nm: "st_name esym < length sym_names"
      "strchr (c_string sym_names (st_name esym)) CHR ''@'' = None"
    and fresh: "map_of (table st)
        (snd (stringpool_add (namepool st) (c_string sym_names (st_name esym))), 0) = None"
    and factory: "\<not> t_has_make_symbol (obj_target relobj)"
  shows "\<exists>st'. add_from_relobj sz big_endian st relobj [esym] sym_names
             = Inr (st', [Some (length (heap st))])
           \<and> lookup st' (c_string sym_names (st_name esym)) None = Some (length (heap st))
           \<and> binding (heap st' ! length (heap st)) = st_bind esym"
proof -
  let ?name = "c_string sym_names (st_name esym)"
  let ?nk = "stringpool_add (namepool st) ?name"
  let ?st1 = "(if get_size st = 0 then st \<lparr> elf_size := sz \<rparr> else st)"
  have t1: "table ?st1 = table st" and h1: "heap ?st1 = heap st"
    and n1: "namepool ?st1 = namepool st"
    by simp_all
  have size1: "get_size ?st1 = sz"
    using sz(1) by (auto simp: get_size_def)
  let ?psym = "(if st_shndx esym \<noteq> SHN_UNDEF \<and> st_shndx esym < SHN_LORESERVE
                        \<and> \<not> is_section_included relobj (st_shndx esym)
                     then esym \<lparr> st_shndx := SHN_UNDEF \<rparr> else esym)"
  let ?ret = "length (heap st)"
  let ?st2 = "note_undefined_common
                   (?st1 \<lparr> namepool := fst ?nk,
                         table := table_set (table st @ [((snd ?nk, 0), None)]) (snd ?nk, 0) (Some ?ret),
                         heap := heap st @ [init_from_object ?name None relobj ?psym] \<rparr>)
                   ?ret False False"
  have one: "add_from_relobj_sym sz big_endian relobj sym_names ?st1 0 esym
      = Inr (?st2, Some ?ret)"
    using nm fresh factory
    by (simp add: add_from_relobj_sym_def add_from_object_def table_insert_absent Let_def t1 h1 n1
        del: split_paired_All)
  have run: "add_from_relobj sz big_endian st relobj [esym] sym_names = Inr (?st2, [Some ?ret])"
    unfolding add_from_relobj_def Let_def using size1 sz(2) one by simp
  have np: "namepool ?st2 = fst ?nk" and tb: "table ?st2
       = table_set (table st @ [((snd ?nk, 0), None)]) (snd ?nk, 0) (Some ?ret)"
    and hp: "heap ?st2 = heap st @ [init_from_object ?name None relobj ?psym]"
    by (simp_all add: note_undefined_common_def Let_def)
  have look: "lookup ?st2 ?name None = Some ?ret"
    unfolding lookup_def np tb
    using fresh by (simp add: stringpool_find_add table_value_set_new)
  have bind: "binding (heap ?st2 ! ?ret) = st_bind esym"
    unfolding hp by (simp add: init_from_object_def init_fields_def)
  show ?thesis
    using run look bind by blast
qed







text \<open>The dynamic path is the one that passes over local symbols.\<close>

lemma add_from_dynobj_sym_local:
  "st_bind esym = STB_LOCAL
     \<Longrightarrow> add_from_dynobj_sym sz big_endian dynobj sym_names versym version_map st i esym = Inr st"
  by (simp add: add_from_dynobj_sym_def)

end
